theory Spec2Isabelle
  imports Complex_Main "HOL-Library.Product_Lexorder"
begin

section \<open>The Parzen estimator of the TPE sampler\<close>

text \<open>
  A shallow embedding of \<^verbatim>\<open>optuna/samplers/_tpe/parzen_estimator.py\<close>.

  Numbers. A NumPy \<^verbatim>\<open>float64\<close> is modelled by \<open>npfloat\<close>: a finite value carries a
  real number, and the three special values of IEEE arithmetic are constructors of their
  own. Arithmetic on finite values, the exponential and the logarithm included, is exact
  (no rounding, no overflow) and zero has no sign; the special values follow IEEE: NaN is
  absorbing and compares false with everything, a non-zero finite value divided by zero is
  an infinity, zero divided by zero is NaN. The weights of the mixture are modelled a
  second time with the sum and the quotients rounded to the nearest \<^verbatim>\<open>float64\<close> value, for
  the properties that rounding and overflow decide.
\<close>

subsection \<open>Floating-point values\<close>

datatype npfloat = Fin real | PInf | NInf | NaN

fun fl_isfinite :: "npfloat \<Rightarrow> bool" where
  "fl_isfinite (Fin x) = True"
| "fl_isfinite PInf = False"
| "fl_isfinite NInf = False"
| "fl_isfinite NaN = False"

fun fl_lt :: "npfloat \<Rightarrow> npfloat \<Rightarrow> bool" where
  "fl_lt NaN b = False"
| "fl_lt a NaN = False"
| "fl_lt (Fin x) (Fin y) = (x < y)"
| "fl_lt a NInf = False"
| "fl_lt PInf b = False"
| "fl_lt NInf b = True"
| "fl_lt (Fin x) PInf = True"

fun fl_le :: "npfloat \<Rightarrow> npfloat \<Rightarrow> bool" where
  "fl_le NaN b = False"
| "fl_le a NaN = False"
| "fl_le (Fin x) (Fin y) = (x \<le> y)"
| "fl_le NInf b = True"
| "fl_le a PInf = True"
| "fl_le PInf b = False"
| "fl_le (Fin x) NInf = False"

fun fl_neg :: "npfloat \<Rightarrow> npfloat" where
  "fl_neg (Fin x) = Fin (- x)"
| "fl_neg PInf = NInf"
| "fl_neg NInf = PInf"
| "fl_neg NaN = NaN"

fun fl_add :: "npfloat \<Rightarrow> npfloat \<Rightarrow> npfloat" where
  "fl_add NaN b = NaN"
| "fl_add a NaN = NaN"
| "fl_add (Fin x) (Fin y) = Fin (x + y)"
| "fl_add PInf NInf = NaN"
| "fl_add NInf PInf = NaN"
| "fl_add PInf b = PInf"
| "fl_add NInf b = NInf"
| "fl_add (Fin x) b = b"

definition fl_sub :: "npfloat \<Rightarrow> npfloat \<Rightarrow> npfloat" where
  "fl_sub a b = fl_add a (fl_neg b)"

text \<open>The sign of a value: \<open>1\<close>, \<open>0\<close> or \<open>-1\<close>; it is only used on values that are not NaN.\<close>

fun fl_sign :: "npfloat \<Rightarrow> int" where
  "fl_sign (Fin x) = (if x > 0 then 1 else if x < 0 then - 1 else 0)"
| "fl_sign PInf = 1"
| "fl_sign NInf = - 1"
| "fl_sign NaN = 0"

definition signed_inf :: "int \<Rightarrow> npfloat" where
  "signed_inf s = (if s > 0 then PInf else if s < 0 then NInf else NaN)"

fun fl_mul :: "npfloat \<Rightarrow> npfloat \<Rightarrow> npfloat" where
  "fl_mul NaN b = NaN"
| "fl_mul a NaN = NaN"
| "fl_mul (Fin x) (Fin y) = Fin (x * y)"
| "fl_mul a b = signed_inf (fl_sign a * fl_sign b)"

fun fl_div :: "npfloat \<Rightarrow> npfloat \<Rightarrow> npfloat" where
  "fl_div NaN b = NaN"
| "fl_div a NaN = NaN"
| "fl_div (Fin x) (Fin y) = (if y = 0 then signed_inf (fl_sign (Fin x)) else Fin (x / y))"
| "fl_div (Fin x) b = Fin 0"
| "fl_div a (Fin y) = signed_inf (fl_sign a * (if y < 0 then - 1 else 1))"
| "fl_div a b = NaN"

text \<open>\<^verbatim>\<open>np.maximum\<close>, \<^verbatim>\<open>np.minimum\<close> and \<^verbatim>\<open>np.clip\<close> propagate NaN;
  \<^verbatim>\<open>np.clip(x, lo, hi)\<close> is \<^verbatim>\<open>minimum(maximum(x, lo), hi)\<close>.\<close>

definition fl_max :: "npfloat \<Rightarrow> npfloat \<Rightarrow> npfloat" where
  "fl_max a b = (if a = NaN \<or> b = NaN then NaN else if fl_lt a b then b else a)"

definition fl_min :: "npfloat \<Rightarrow> npfloat \<Rightarrow> npfloat" where
  "fl_min a b = (if a = NaN \<or> b = NaN then NaN else if fl_lt b a then b else a)"

definition np_clip :: "npfloat \<Rightarrow> npfloat \<Rightarrow> npfloat \<Rightarrow> npfloat" where
  "np_clip x lo hi = fl_min (fl_max x lo) hi"

text \<open>\<^verbatim>\<open>np.round\<close> rounds to the nearest integer, a tie to the even one.\<close>

definition round_half_even :: "real \<Rightarrow> int" where
  "round_half_even x =
     (let f = \<lfloor>x\<rfloor>; d = x - of_int f
      in if d < 1 / 2 then f else if 1 / 2 < d then f + 1 else if even f then f else f + 1)"

fun np_round :: "npfloat \<Rightarrow> npfloat" where
  "np_round (Fin x) = Fin (of_int (round_half_even x))"
| "np_round a = a"

fun np_exp :: "npfloat \<Rightarrow> npfloat" where
  "np_exp (Fin x) = Fin (exp x)"
| "np_exp PInf = PInf"
| "np_exp NInf = Fin 0"
| "np_exp NaN = NaN"

fun np_log :: "npfloat \<Rightarrow> npfloat" where
  "np_log (Fin x) = (if x > 0 then Fin (ln x) else if x = 0 then NInf else NaN)"
| "np_log PInf = PInf"
| "np_log NInf = NaN"
| "np_log NaN = NaN"

definition np_sum :: "npfloat list \<Rightarrow> npfloat" where
  "np_sum xs = foldl fl_add (Fin 0) xs"

subsection \<open>Errors\<close>

text \<open>Every exception the estimator can raise is a value. A \<^verbatim>\<open>ValueError\<close> carries
  its origin: the three checks of the weight function, a shape mismatch that NumPy reports
  when a slice is assigned an array it cannot broadcast or when arrays of different
  lengths are packed into one record array, and a field missing from a record array.\<close>

datatype value_error =
  NegativeWeights | AllZeroWeights | NonFiniteWeights | ShapeMismatch | NoField

datatype error =
  ValueError value_error | AssertionError | IndexError | KeyError | StopIteration

definition ebind :: "error + 'a \<Rightarrow> ('a \<Rightarrow> error + 'b) \<Rightarrow> error + 'b" where
  "ebind m f = (case m of Inl e \<Rightarrow> Inl e | Inr x \<Rightarrow> f x)"

subsection \<open>Configuration\<close>

record ParzenEstimatorParameters =
  consider_prior :: bool
  prior_weight :: "npfloat option"
  consider_magic_clip :: bool
  consider_endpoints :: bool
  weights :: "nat \<Rightarrow> npfloat list"
  multivariate :: bool

definition EPS :: real where
  "EPS = 1 / 10 ^ 12"

definition SIGMA0_MAGNITUDE :: real where
  "SIGMA0_MAGNITUDE = 2 / 10"

subsection \<open>The weights of the mixture\<close>

text \<open>The three checks of lines 100 to 114, in the order of the source.\<close>

definition check_weights :: "npfloat list \<Rightarrow> error + npfloat list" where
  "check_weights w =
     (if list_ex (\<lambda>x. fl_lt x (Fin 0)) w then Inl (ValueError NegativeWeights)
      else if 0 < length w \<and> fl_le (np_sum w) (Fin 0) then Inl (ValueError AllZeroWeights)
      else if \<not> list_all fl_isfinite w then Inl (ValueError NonFiniteWeights)
      else Inr w)"

text \<open>\<^verbatim>\<open>weights[:-1] = w\<close> on a vector of \<open>n + 1\<close> zeros: the slice has \<open>n\<close> entries, and
  NumPy copies an array of \<open>n\<close> entries, repeats the entry of an array of one, and raises a
  \<^verbatim>\<open>ValueError\<close> for any other length.\<close>

definition assign_slice :: "nat \<Rightarrow> npfloat list \<Rightarrow> error + npfloat list" where
  "assign_slice n w =
     (if length w = n then Inr w
      else if length w = 1 then Inr (replicate n (hd w))
      else Inl (ValueError ShapeMismatch))"

text \<open>Assigning \<^verbatim>\<open>None\<close> to an entry of a float array stores NaN.\<close>

definition float_of_optional :: "npfloat option \<Rightarrow> npfloat" where
  "float_of_optional p = (case p of None \<Rightarrow> NaN | Some x \<Rightarrow> x)"

definition normalize :: "npfloat list \<Rightarrow> npfloat list" where
  "normalize ws = map (\<lambda>x. fl_div x (np_sum ws)) ws"

definition calculate_weights ::
  "npfloat list option \<Rightarrow> nat \<Rightarrow> ParzenEstimatorParameters \<Rightarrow> error + npfloat list" where
  "calculate_weights predetermined_weights n_observations parameters =
     (let consider_prior' = (consider_prior parameters \<or> n_observations = 0)
      in ebind
           (case predetermined_weights of
              None \<Rightarrow> check_weights (take n_observations (weights parameters n_observations))
            | Some pw \<Rightarrow> Inr (take n_observations pw))
           (\<lambda>w. ebind
              (if consider_prior'
               then ebind (assign_slice n_observations w)
                      (\<lambda>ws. Inr (ws @ [float_of_optional (prior_weight parameters)]))
               else Inr w)
              (\<lambda>ws. Inr (normalize ws))))"

subsection \<open>The search space\<close>

text \<open>A search-space entry is one of the three classes of \<^verbatim>\<open>_DISTRIBUTION_CLASSES\<close>.
  \<open>FloatDistribution low high log step\<close> has an optional step;
  \<open>IntDistribution low high log step\<close> always has one. Dictionaries are association
  lists in insertion order.\<close>

datatype distribution =
  CategoricalDistribution "string list"
| FloatDistribution real real bool "real option"
| IntDistribution int int bool int

type_synonym samples_dict = "(string \<times> npfloat list) list"

type_synonym search_space = "(string \<times> distribution) list"

subsection \<open>Transformations between the native and the working domain\<close>

fun to_uniform_samples :: "distribution \<Rightarrow> npfloat list \<Rightarrow> npfloat list" where
  "to_uniform_samples (CategoricalDistribution choices) samples = samples"
| "to_uniform_samples (FloatDistribution low high is_log step) samples =
     (if is_log then map np_log samples else samples)"
| "to_uniform_samples (IntDistribution low high is_log step) samples =
     (if is_log then map np_log samples else samples)"

fun to_uniform_items :: "samples_dict \<Rightarrow> search_space \<Rightarrow> error + samples_dict" where
  "to_uniform_items [] search_space = Inr []"
| "to_uniform_items ((param_name, samples) # rest) search_space =
     (case map_of search_space param_name of
        None \<Rightarrow> Inl KeyError
      | Some distribution \<Rightarrow>
          ebind (to_uniform_items rest search_space)
            (\<lambda>transformed. Inr ((param_name, to_uniform_samples distribution samples) # transformed)))"

text \<open>\<^verbatim>\<open>np.rec.fromarrays\<close> needs at least one array and arrays of one shape.\<close>

definition rec_fromarrays :: "samples_dict \<Rightarrow> error + samples_dict" where
  "rec_fromarrays cols =
     (case cols of
        [] \<Rightarrow> Inl IndexError
      | (name, first) # rest \<Rightarrow>
          if list_all (\<lambda>c. length (snd c) = length first) rest then Inr cols
          else Inl (ValueError ShapeMismatch))"

definition transform_to_uniform :: "samples_dict \<Rightarrow> search_space \<Rightarrow> error + samples_dict" where
  "transform_to_uniform samples_dict search_space =
     ebind (to_uniform_items samples_dict search_space) rec_fromarrays"

text \<open>Lines 166 to 170 and 180 to 184: snap to the grid, then clip.\<close>

definition snap_and_clip :: "real \<Rightarrow> real \<Rightarrow> real \<Rightarrow> npfloat \<Rightarrow> npfloat" where
  "snap_and_clip low high q s =
     np_clip (fl_add (fl_mul (np_round (fl_div (fl_sub s (Fin low)) (Fin q))) (Fin q)) (Fin low))
       (Fin low) (Fin high)"

fun from_uniform_samples :: "distribution \<Rightarrow> npfloat list \<Rightarrow> npfloat list" where
  "from_uniform_samples (FloatDistribution low high is_log step) samples =
     (if is_log then map np_exp samples
      else case step of
             Some q \<Rightarrow> map (snap_and_clip low high q) samples
           | None \<Rightarrow> samples)"
| "from_uniform_samples (IntDistribution low high is_log step) samples =
     (if is_log
      then map (\<lambda>s. np_clip (np_round (np_exp s)) (Fin (of_int low)) (Fin (of_int high))) samples
      else map (snap_and_clip (of_int low) (of_int high) (of_int step)) samples)"
| "from_uniform_samples (CategoricalDistribution choices) samples = samples"

fun transform_from_uniform :: "samples_dict \<Rightarrow> search_space \<Rightarrow> error + samples_dict" where
  "transform_from_uniform [] search_space = Inr []"
| "transform_from_uniform ((param_name, samples) # rest) search_space =
     (case map_of search_space param_name of
        None \<Rightarrow> Inl KeyError
      | Some distribution \<Rightarrow>
          ebind (transform_from_uniform rest search_space)
            (\<lambda>transformed. Inr ((param_name, from_uniform_samples distribution samples) # transformed)))"

subsection \<open>The distributions of one parameter\<close>

text \<open>The primitives of \<^verbatim>\<open>probability_distributions\<close> only package their arguments:
  a matrix of category weights with one row per component, or the arrays of centres,
  widths, bounds and steps with one entry per component.\<close>

datatype batched_distributions =
  categorical_distribution "npfloat list list"
| truncnorm_distribution "npfloat list" "npfloat list" "npfloat list" "npfloat list"
| discrete_truncnorm_distribution
    "npfloat list" "npfloat list" "npfloat list" "npfloat list" "npfloat list"

text \<open>\<^verbatim>\<open>astype(int)\<close> truncates towards zero; a value that is not finite becomes the
  least 64-bit integer.\<close>

fun astype_int :: "npfloat \<Rightarrow> int" where
  "astype_int (Fin x) = (if 0 \<le> x then \<lfloor>x\<rfloor> else \<lceil>x\<rceil>)"
| "astype_int a = - (2 ^ 63)"

text \<open>An index into an axis of length \<open>k\<close>: a negative index counts from the end.\<close>

definition resolve_index :: "nat \<Rightarrow> int \<Rightarrow> error + nat" where
  "resolve_index k i =
     (if - int k \<le> i \<and> i < int k then Inr (nat (if i < 0 then i + int k else i))
      else Inl IndexError)"

fun resolve_indices :: "nat \<Rightarrow> int list \<Rightarrow> error + nat list" where
  "resolve_indices k [] = Inr []"
| "resolve_indices k (i # rest) =
     ebind (resolve_index k i) (\<lambda>j. ebind (resolve_indices k rest) (\<lambda>js. Inr (j # js)))"

text \<open>\<^verbatim>\<open>weights[np.arange(n), observations] += 1\<close>: row \<open>i\<close> gains one in the column of
  observation \<open>i\<close>; rows after the last observation are left as they are.\<close>

fun add_one_at :: "npfloat list list \<Rightarrow> nat list \<Rightarrow> npfloat list list" where
  "add_one_at rows [] = rows"
| "add_one_at [] (j # js) = []"
| "add_one_at (row # rows) (j # js) = row[j := fl_add (row ! j) (Fin 1)] # add_one_at rows js"

definition calculate_categorical_distributions ::
  "npfloat list \<Rightarrow> string list \<Rightarrow> ParzenEstimatorParameters \<Rightarrow> error + batched_distributions" where
  "calculate_categorical_distributions observations choices parameters =
     (let indices = map astype_int observations;
          n_observations = length indices;
          consider_prior' = (consider_prior parameters \<or> n_observations = 0)
      in ebind
           (if consider_prior'
            then (case prior_weight parameters of
                    None \<Rightarrow> Inl AssertionError
                  | Some pw \<Rightarrow>
                      Inr (n_observations + 1, fl_div pw (Fin (real (n_observations + 1)))))
            else (case prior_weight parameters of
                    None \<Rightarrow> Inl AssertionError
                  | Some pw \<Rightarrow> Inr (n_observations, fl_div pw (Fin (real n_observations)))))
           (\<lambda>(n_rows, fill).
              ebind (resolve_indices (length choices) indices)
                (\<lambda>js. Inr (categorical_distribution
                      (map normalize
                         (add_one_at (replicate n_rows (replicate (length choices) fill)) js))))))"

text \<open>\<^verbatim>\<open>np.argsort\<close>: the positions of an array in the order of its values, NaN last.
  NumPy does not promise an order among equal values; here they keep the order of their
  positions.\<close>

fun sort_rank :: "npfloat \<Rightarrow> nat \<times> real" where
  "sort_rank NInf = (0, 0)"
| "sort_rank (Fin x) = (1, x)"
| "sort_rank PInf = (2, 0)"
| "sort_rank NaN = (3, 0)"

definition argsort :: "('a \<Rightarrow> 'k::linorder) \<Rightarrow> 'a list \<Rightarrow> nat list" where
  "argsort rank xs = sort_key (\<lambda>i. rank (xs ! i)) [0..<length xs]"

text \<open>\<^verbatim>\<open>(step or 0)\<close>: a step of zero is falsy, and the value is zero either way.\<close>

definition step_or_0 :: "npfloat option \<Rightarrow> npfloat" where
  "step_or_0 step = (case step of None \<Rightarrow> Fin 0 | Some q \<Rightarrow> q)"

definition maxsigma :: "npfloat \<Rightarrow> npfloat \<Rightarrow> npfloat option \<Rightarrow> npfloat" where
  "maxsigma low high step = fl_mul (Fin 1) (fl_add (fl_sub high low) (step_or_0 step))"

definition minsigma :: "bool \<Rightarrow> nat \<Rightarrow> npfloat \<Rightarrow> npfloat \<Rightarrow> npfloat option \<Rightarrow> npfloat" where
  "minsigma magic_clip n_mus low high step =
     (if magic_clip
      then fl_div (fl_mul (Fin 1) (fl_add (fl_sub high low) (step_or_0 step)))
             (Fin (min 100 (1 + real n_mus)))
      else Fin EPS)"

text \<open>Lines 288 to 304: the width of a component is the larger of the gaps to its two
  neighbours among the sorted centres, the bounds (widened by half a step) included.\<close>

definition neighbour_sigmas ::
  "bool \<Rightarrow> npfloat list \<Rightarrow> npfloat \<Rightarrow> npfloat \<Rightarrow> npfloat option \<Rightarrow> npfloat list" where
  "neighbour_sigmas endpoints mus low high step =
     (let sorted_indices = argsort sort_rank mus;
          sorted_mus = map (\<lambda>i. mus ! i) sorted_indices;
          half_step = fl_div (step_or_0 step) (Fin 2);
          ext = [fl_sub low half_step] @ sorted_mus @ [fl_add high half_step];
          m = length mus;
          sorted_sigmas =
            map (\<lambda>j. fl_max (fl_sub (ext ! (j + 1)) (ext ! j))
                             (fl_sub (ext ! (j + 2)) (ext ! (j + 1)))) [0..<m];
          sorted_sigmas' =
            (if \<not> endpoints \<and> 4 \<le> length ext
             then (sorted_sigmas[0 := fl_sub (ext ! 2) (ext ! 1)])
                    [m - 1 := fl_sub (ext ! (length ext - 2)) (ext ! (length ext - 3))]
             else sorted_sigmas)
      in map (\<lambda>i. sorted_sigmas' ! i) (argsort id sorted_indices))"

definition calculate_numerical_distributions ::
  "nat \<Rightarrow> npfloat list \<Rightarrow> npfloat \<Rightarrow> npfloat \<Rightarrow> npfloat option \<Rightarrow> ParzenEstimatorParameters
     \<Rightarrow> batched_distributions" where
  "calculate_numerical_distributions n_params observations low high step parameters =
     (let n_observations = length observations;
          consider_prior' = (consider_prior parameters \<or> n_observations = 0);
          prior_mu = fl_mul (Fin (1 / 2)) (fl_add low high);
          prior_sigma = fl_mul (Fin 1) (fl_add (fl_sub high low) (step_or_0 step));
          mus = (if consider_prior' then observations @ [prior_mu] else observations);
          sigmas =
            (if multivariate parameters
             then replicate (length mus)
                    (fl_mul (Fin (SIGMA0_MAGNITUDE
                                   * real (max n_observations 1) powr (- 1 / (real n_params + 4))))
                       (fl_add (fl_sub high low) (step_or_0 step)))
             else neighbour_sigmas (consider_endpoints parameters) mus low high step);
          clipped =
            map (\<lambda>s. np_clip s (minsigma (consider_magic_clip parameters) (length mus) low high step)
                              (maxsigma low high step)) sigmas;
          sigmas' = (if consider_prior' then clipped[n_observations := prior_sigma] else clipped)
      in case step of
           None \<Rightarrow>
             truncnorm_distribution mus sigmas'
               (replicate (length mus) low) (replicate (length mus) high)
         | Some q \<Rightarrow>
             discrete_truncnorm_distribution mus sigmas'
               (replicate (length mus) low) (replicate (length mus) high)
               (replicate (length mus) q))"

text \<open>Lines 203 to 215: the bounds and the step in the working domain. A parameter on a
  logarithmic scale with a step loses the step and has its bounds widened by half of it.\<close>

definition working_bounds ::
  "real \<Rightarrow> real \<Rightarrow> bool \<Rightarrow> real option \<Rightarrow> npfloat \<times> npfloat \<times> npfloat option" where
  "working_bounds low high is_log step =
     (case step of
        Some q \<Rightarrow>
          if is_log then (np_log (Fin (low - q / 2)), np_log (Fin (high + q / 2)), None)
          else (Fin low, Fin high, Some (Fin q))
      | None \<Rightarrow>
          if is_log then (np_log (Fin low), np_log (Fin high), None)
          else (Fin low, Fin high, None))"

fun distribution_bounds :: "distribution \<Rightarrow> (npfloat \<times> npfloat \<times> npfloat option) option" where
  "distribution_bounds (CategoricalDistribution choices) = None"
| "distribution_bounds (FloatDistribution low high is_log step) =
     Some (working_bounds low high is_log step)"
| "distribution_bounds (IntDistribution low high is_log step) =
     Some (working_bounds (of_int low) (of_int high) is_log (Some (of_int step)))"

definition calculate_distributions ::
  "nat \<Rightarrow> npfloat list \<Rightarrow> distribution \<Rightarrow> ParzenEstimatorParameters
     \<Rightarrow> error + batched_distributions" where
  "calculate_distributions n_params transformed_observations search_space parameters =
     (case search_space of
        CategoricalDistribution choices \<Rightarrow>
          calculate_categorical_distributions transformed_observations choices parameters
      | _ \<Rightarrow>
          (case the (distribution_bounds search_space) of
             (low, high, step) \<Rightarrow>
               Inr (calculate_numerical_distributions n_params transformed_observations
                      low high step parameters)))"

subsection \<open>The estimator\<close>

datatype mixture = mixture_distribution "(string \<times> batched_distributions) list" "npfloat list"

record ParzenEstimator =
  search_space_of :: search_space
  mixture_of :: mixture

text \<open>A field of a record array; a name that is not a field raises a \<^verbatim>\<open>ValueError\<close>.\<close>

definition field :: "samples_dict \<Rightarrow> string \<Rightarrow> error + npfloat list" where
  "field sa name = (case map_of sa name of None \<Rightarrow> Inl (ValueError NoField) | Some xs \<Rightarrow> Inr xs)"

fun product_distribution ::
  "nat \<Rightarrow> samples_dict \<Rightarrow> ParzenEstimatorParameters \<Rightarrow> search_space
     \<Rightarrow> error + (string \<times> batched_distributions) list" where
  "product_distribution n_params transformed parameters [] = Inr []"
| "product_distribution n_params transformed parameters ((param, distribution) # rest) =
     ebind (field transformed param)
       (\<lambda>obs. ebind (calculate_distributions n_params obs distribution parameters)
          (\<lambda>d. ebind (product_distribution n_params transformed parameters rest)
             (\<lambda>ds. Inr ((param, d) # ds))))"

definition init ::
  "samples_dict \<Rightarrow> search_space \<Rightarrow> ParzenEstimatorParameters \<Rightarrow> npfloat list option
     \<Rightarrow> error + ParzenEstimator" where
  "init observations search_space parameters predetermined_weights =
     (case observations of
        [] \<Rightarrow> Inl StopIteration
      | (name, first) # rest \<Rightarrow>
          (let n_observations = length first
           in if (case predetermined_weights of
                    None \<Rightarrow> False
                  | Some pw \<Rightarrow> n_observations \<noteq> length pw)
              then Inl AssertionError
              else ebind (calculate_weights predetermined_weights n_observations parameters)
                (\<lambda>ws. ebind (transform_to_uniform observations search_space)
                   (\<lambda>transformed.
                      ebind (product_distribution (length search_space) transformed
                               parameters search_space)
                        (\<lambda>product.
                           Inr \<lparr>search_space_of = search_space,
                                mixture_of = mixture_distribution product ws\<rparr>)))))"

text \<open>\<^verbatim>\<open>sample\<close>: the record array drawn by the sampling primitive from the mixture,
  taken back to the native domain.\<close>

definition sample :: "ParzenEstimator \<Rightarrow> samples_dict \<Rightarrow> error + samples_dict" where
  "sample estimator sampled = transform_from_uniform sampled (search_space_of estimator)"

subsection \<open>The weights, with the arrays in a store\<close>

text \<open>NumPy arrays are mutable and a basic slice is a view of the array it is taken from.
  To follow what \<^verbatim>\<open>_calculate_weights\<close> does to the array of its caller, the store is a
  list of buffers, an array is a window of a buffer, \<^verbatim>\<open>x[:n]\<close> is a window of the same
  buffer, \<^verbatim>\<open>np.zeros\<close> appends a new buffer, and \<^verbatim>\<open>weights /= weights.sum()\<close> overwrites
  the window it is applied to. The weight function is taken to return a new array.\<close>

type_synonym store = "npfloat list list"

record ndarray =
  buffer :: nat
  start :: nat
  extent :: nat

definition valid_array :: "store \<Rightarrow> ndarray \<Rightarrow> bool" where
  "valid_array h a = (buffer a < length h \<and> start a + extent a \<le> length (h ! buffer a))"

definition np_read :: "store \<Rightarrow> ndarray \<Rightarrow> npfloat list" where
  "np_read h a = take (extent a) (drop (start a) (h ! buffer a))"

definition np_write :: "store \<Rightarrow> ndarray \<Rightarrow> npfloat list \<Rightarrow> store" where
  "np_write h a xs =
     h[buffer a := take (start a) (h ! buffer a) @ xs @ drop (start a + extent a) (h ! buffer a)]"

definition np_alloc :: "store \<Rightarrow> npfloat list \<Rightarrow> ndarray \<times> store" where
  "np_alloc h xs = (\<lparr>buffer = length h, start = 0, extent = length xs\<rparr>, h @ [xs])"

definition slice_to :: "ndarray \<Rightarrow> nat \<Rightarrow> ndarray" where
  "slice_to a n = a\<lparr>extent := min n (extent a)\<rparr>"

definition calculate_weights_store ::
  "ndarray option \<Rightarrow> nat \<Rightarrow> ParzenEstimatorParameters \<Rightarrow> store
     \<Rightarrow> error + (ndarray \<times> store)" where
  "calculate_weights_store predetermined_weights n_observations parameters h =
     (let consider_prior' = (consider_prior parameters \<or> n_observations = 0)
      in ebind
           (case predetermined_weights of
              None \<Rightarrow>
                (case np_alloc h (weights parameters n_observations) of
                   (returned, h1) \<Rightarrow>
                     ebind (check_weights (np_read h1 (slice_to returned n_observations)))
                       (\<lambda>checked. Inr (slice_to returned n_observations, h1)))
            | Some pw \<Rightarrow> Inr (slice_to pw n_observations, h))
           (\<lambda>(w, h1). ebind
              (if consider_prior'
               then (case np_alloc h1 (replicate (n_observations + 1) (Fin 0)) of
                       (zeros, h2) \<Rightarrow>
                         ebind (assign_slice n_observations (np_read h2 w))
                           (\<lambda>ws. Inr (zeros,
                                 np_write h2 zeros
                                   (ws @ [float_of_optional (prior_weight parameters)]))))
               else Inr (w, h1))
              (\<lambda>(ws, h3). Inr (ws, np_write h3 ws (normalize (np_read h3 ws))))))"

text \<open>The constructor with the predetermined weights in the store: the array of the
  caller is handed to \<^verbatim>\<open>_calculate_weights\<close> as it is.\<close>

definition init_store ::
  "samples_dict \<Rightarrow> search_space \<Rightarrow> ParzenEstimatorParameters \<Rightarrow> ndarray option \<Rightarrow> store
     \<Rightarrow> error + (ParzenEstimator \<times> store)" where
  "init_store observations search_space parameters predetermined_weights h =
     (case observations of
        [] \<Rightarrow> Inl StopIteration
      | (name, first) # rest \<Rightarrow>
          (let n_observations = length first
           in if (case predetermined_weights of
                    None \<Rightarrow> False
                  | Some pw \<Rightarrow> n_observations \<noteq> extent pw)
              then Inl AssertionError
              else ebind (calculate_weights_store predetermined_weights n_observations parameters h)
                (\<lambda>(ws, h'). ebind (transform_to_uniform observations search_space)
                   (\<lambda>transformed.
                      ebind (product_distribution (length search_space) transformed
                               parameters search_space)
                        (\<lambda>product.
                           Inr (\<lparr>search_space_of = search_space,
                                 mixture_of = mixture_distribution product (np_read h' ws)\<rparr>,
                                h'))))))"

subsection \<open>The weights in rounded arithmetic\<close>

text \<open>
  The sum and the quotients of line 126 are \<^verbatim>\<open>float64\<close> operations: the real result is
  rounded to a \<^verbatim>\<open>float64\<close> value, or to an infinity when it is too large. Here the
  rounding is a parameter \<open>r\<close>: \<open>r x\<close> is what the real number \<open>x\<close> is rounded to. The
  special values are not rounded.
\<close>

definition round_with :: "(real \<Rightarrow> npfloat) \<Rightarrow> npfloat \<Rightarrow> npfloat" where
  "round_with r v = (case v of Fin x \<Rightarrow> r x | PInf \<Rightarrow> PInf | NInf \<Rightarrow> NInf | NaN \<Rightarrow> NaN)"

text \<open>
  The order in which \<^verbatim>\<open>np.sum\<close> adds the entries of an array is a parameter too: NumPy
  adds a short array from left to right and a long one in blocks and in pairs. An order
  makes of an array a bracketing of its entries, and every addition of the bracketing is
  rounded. The sum of an empty array is zero.
\<close>

datatype addition = Operand npfloat | Add addition addition


fun eval_with :: "(real \<Rightarrow> npfloat) \<Rightarrow> addition \<Rightarrow> npfloat" where
  "eval_with r (Operand v) = v"
| "eval_with r (Add a b) = round_with r (fl_add (eval_with r a) (eval_with r b))"

definition left_to_right :: "npfloat list \<Rightarrow> addition" where
  "left_to_right xs = foldl (\<lambda>t x. Add t (Operand x)) (Operand (hd xs)) (tl xs)"

definition np_sum_with ::
  "(real \<Rightarrow> npfloat) \<Rightarrow> (npfloat list \<Rightarrow> addition) \<Rightarrow> npfloat list \<Rightarrow> npfloat" where
  "np_sum_with r order xs = (if xs = [] then Fin 0 else eval_with r (order xs))"

text \<open>\<^verbatim>\<open>_calculate_weights\<close> once more, lines 94 to 127, with the sums of lines 105 and
  126 and the quotients of line 126 rounded. With the rounding \<open>Fin\<close> and the order
  \<open>left_to_right\<close> it is \<open>calculate_weights\<close>.\<close>

definition check_weights_with ::
  "(real \<Rightarrow> npfloat) \<Rightarrow> (npfloat list \<Rightarrow> addition) \<Rightarrow> npfloat list \<Rightarrow> error + npfloat list" where
  "check_weights_with r order w =
     (if list_ex (\<lambda>x. fl_lt x (Fin 0)) w then Inl (ValueError NegativeWeights)
      else if 0 < length w \<and> fl_le (np_sum_with r order w) (Fin 0)
        then Inl (ValueError AllZeroWeights)
      else if \<not> list_all fl_isfinite w then Inl (ValueError NonFiniteWeights)
      else Inr w)"

definition normalize_with ::
  "(real \<Rightarrow> npfloat) \<Rightarrow> (npfloat list \<Rightarrow> addition) \<Rightarrow> npfloat list \<Rightarrow> npfloat list" where
  "normalize_with r order ws = map (\<lambda>x. round_with r (fl_div x (np_sum_with r order ws))) ws"

definition calculate_weights_with ::
  "(real \<Rightarrow> npfloat) \<Rightarrow> (npfloat list \<Rightarrow> addition) \<Rightarrow> npfloat list option \<Rightarrow> nat
     \<Rightarrow> ParzenEstimatorParameters \<Rightarrow> error + npfloat list" where
  "calculate_weights_with r order predetermined_weights n_observations parameters =
     (let consider_prior' = (consider_prior parameters \<or> n_observations = 0)
      in ebind
           (case predetermined_weights of
              None \<Rightarrow>
                check_weights_with r order
                  (take n_observations (weights parameters n_observations))
            | Some pw \<Rightarrow> Inr (take n_observations pw))
           (\<lambda>w. ebind
              (if consider_prior'
               then ebind (assign_slice n_observations w)
                      (\<lambda>ws. Inr (ws @ [float_of_optional (prior_weight parameters)]))
               else Inr w)
              (\<lambda>ws. Inr (normalize_with r order ws))))"






subsection \<open>Configurations and search spaces used as examples\<close>

definition uniform_parameters :: ParzenEstimatorParameters where
  "uniform_parameters =
     \<lparr>consider_prior = True, prior_weight = Some (Fin 1), consider_magic_clip = True,
      consider_endpoints = False, weights = (\<lambda>n. replicate n (Fin 1)), multivariate = False\<rparr>"




definition short_weights_parameters :: ParzenEstimatorParameters where
  "short_weights_parameters =
     \<lparr>consider_prior = True, prior_weight = Some (Fin 1), consider_magic_clip = True,
      consider_endpoints = False, weights = (\<lambda>n. [Fin 1, Fin 1]), multivariate = False\<rparr>"

definition negative_weights_parameters :: ParzenEstimatorParameters where
  "negative_weights_parameters =
     \<lparr>consider_prior = False, prior_weight = Some (Fin 1), consider_magic_clip = True,
      consider_endpoints = False, weights = (\<lambda>n. [Fin (- 1)]), multivariate = False\<rparr>"

definition no_prior_parameters :: ParzenEstimatorParameters where
  "no_prior_parameters =
     \<lparr>consider_prior = False, prior_weight = Some (Fin 1), consider_magic_clip = True,
      consider_endpoints = False, weights = (\<lambda>n. replicate n (Fin 1)), multivariate = False\<rparr>"

definition null_prior_parameters :: ParzenEstimatorParameters where
  "null_prior_parameters =
     \<lparr>consider_prior = False, prior_weight = None, consider_magic_clip = True,
      consider_endpoints = False, weights = (\<lambda>n. replicate n (Fin 1)), multivariate = False\<rparr>"

definition null_prior_considered_parameters :: ParzenEstimatorParameters where
  "null_prior_considered_parameters =
     \<lparr>consider_prior = True, prior_weight = None, consider_magic_clip = True,
      consider_endpoints = False, weights = (\<lambda>n. replicate n (Fin 1)), multivariate = False\<rparr>"




definition mixed_search_space :: search_space where
  "mixed_search_space =
     [(''x'', FloatDistribution 0 1 False None), (''c'', CategoricalDistribution [''a'', ''b''])]"

definition float_search_space :: search_space where
  "float_search_space = [(''x'', FloatDistribution 0 1 False None)]"

definition caller_array :: ndarray where
  "caller_array = \<lparr>buffer = 0, start = 0, extent = 2\<rparr>"

subsection \<open>Vocabulary of the properties\<close>



text \<open>The condition of the three checks: a negative entry, a sum that is not positive on
  a vector that is not empty, or an entry that is not finite.\<close>

definition weights_rejected :: "npfloat list \<Rightarrow> bool" where
  "weights_rejected w =
     (list_ex (\<lambda>x. fl_lt x (Fin 0)) w \<or> (0 < length w \<and> fl_le (np_sum w) (Fin 0))
      \<or> \<not> list_all fl_isfinite w)"

text \<open>A search space of numerical parameters only.\<close>

fun is_numerical :: "distribution \<Rightarrow> bool" where
  "is_numerical (CategoricalDistribution choices) = False"
| "is_numerical (FloatDistribution low high is_log step) = True"
| "is_numerical (IntDistribution low high is_log step) = True"

definition numerical_search_space :: "search_space \<Rightarrow> bool" where
  "numerical_search_space ss = list_all (\<lambda>c. is_numerical (snd c)) ss"

text \<open>The prior component of a parameter, in the words of the specification: for a
  numerical parameter the centre \<open>(low + high) / 2\<close> and the width
  \<open>high - low + (step or 0)\<close> between the working bounds; for a categorical parameter one
  row that holds the prior weight in every column, divided by its sum.\<close>

definition prior_numerical :: "npfloat \<times> npfloat \<times> npfloat option \<Rightarrow> batched_distributions" where
  "prior_numerical bounds =
     (case bounds of
        (low, high, step) \<Rightarrow>
          (case step of
             None \<Rightarrow>
               truncnorm_distribution [fl_mul (Fin (1 / 2)) (fl_add low high)]
                 [fl_add (fl_sub high low) (Fin 0)] [low] [high]
           | Some q \<Rightarrow>
               discrete_truncnorm_distribution [fl_mul (Fin (1 / 2)) (fl_add low high)]
                 [fl_add (fl_sub high low) q] [low] [high] [q]))"

fun prior_component :: "distribution \<Rightarrow> npfloat \<Rightarrow> batched_distributions" where
  "prior_component (CategoricalDistribution choices) pw =
     categorical_distribution [normalize (replicate (length choices) pw)]"
| "prior_component (FloatDistribution low high is_log step) pw =
     prior_numerical (working_bounds low high is_log step)"
| "prior_component (IntDistribution low high is_log step) pw =
     prior_numerical (working_bounds (of_int low) (of_int high) is_log (Some (of_int step)))"

definition prior_components ::
  "search_space \<Rightarrow> npfloat \<Rightarrow> (string \<times> batched_distributions) list" where
  "prior_components ss pw = map (\<lambda>c. (fst c, prior_component (snd c) pw)) ss"




text \<open>What is asked of a rounding: it never gives NaN, it is monotone, zero and one are
  rounded to themselves, and a finite value that it gives is rounded to itself. An order
  of addition adds every entry of the array as often as it occurs.\<close>

definition rounding :: "(real \<Rightarrow> npfloat) \<Rightarrow> bool" where
  "rounding r =
     ((\<forall>x. r x \<noteq> NaN) \<and> (\<forall>x y. x \<le> y \<longrightarrow> fl_le (r x) (r y))
      \<and> r 0 = Fin 0 \<and> r 1 = Fin 1 \<and> (\<forall>x y. r x = Fin y \<longrightarrow> r y = Fin y))"








section \<open>Properties\<close>

subsection \<open>Finite values\<close>



lemma fl_add_zero_left: "fl_add (Fin 0) q = q"
  by (cases q) simp_all

lemma foldl_fl_add_Fin: "foldl fl_add (Fin a) (map Fin xs) = Fin (a + sum_list xs)"
  by (induction xs arbitrary: a) (auto simp: algebra_simps)

lemma np_sum_Fin: "np_sum (map Fin xs) = Fin (sum_list xs)"
  by (simp add: np_sum_def foldl_fl_add_Fin)




subsection \<open>The checks of the weights\<close>

lemma check_weights_result:
  "check_weights w =
     (if weights_rejected w
      then Inl (ValueError
             (if list_ex (\<lambda>x. fl_lt x (Fin 0)) w then NegativeWeights
              else if 0 < length w \<and> fl_le (np_sum w) (Fin 0) then AllZeroWeights
              else NonFiniteWeights))
      else Inr w)"
  unfolding check_weights_def weights_rejected_def by (simp split: if_splits)

subsection \<open>The weights in rounded arithmetic\<close>

text \<open>Without rounding and added from left to right, they are the weights in exact
  arithmetic.\<close>

lemma round_with_exact: "round_with Fin v = v"
  by (cases v) (simp_all add: round_with_def)

lemma eval_with_left_to_right:
  "eval_with Fin (foldl (\<lambda>t x. Add t (Operand x)) t xs) = foldl fl_add (eval_with Fin t) xs"
  by (induction xs arbitrary: t) (simp_all add: round_with_exact)

lemma np_sum_with_exact: "np_sum_with Fin left_to_right xs = np_sum xs"
proof (cases xs)
  case Nil
  then show ?thesis by (simp add: np_sum_with_def np_sum_def)
next
  case (Cons x xs')
  then show ?thesis
    by (simp add: np_sum_with_def np_sum_def left_to_right_def eval_with_left_to_right
          fl_add_zero_left)
qed

lemma calculate_weights_with_exact:
  "calculate_weights_with Fin left_to_right pws n p = calculate_weights pws n p"
  by (simp add: calculate_weights_with_def calculate_weights_def check_weights_with_def
        check_weights_def normalize_with_def normalize_def np_sum_with_exact round_with_exact
        cong: option.case_cong)





lemma rounding_exact: "rounding Fin"
  by (simp add: rounding_def)





















subsection \<open>Rounding to the nearest float64 value\<close>














































subsection \<open>The normalised weights\<close>




subsection \<open>The errors of the weights\<close>

text \<open>
  Claim C7, as amended. Without predetermined weights, \<^verbatim>\<open>_calculate_weights\<close> raises one
  of the three \<^verbatim>\<open>ValueError\<close>s of its checks if and only if the first \<open>n\<close> entries of the
  weight function hold a negative value, or are not empty and have a sum that is not
  positive, or hold a value that is not finite. The only other error is the
  \<^verbatim>\<open>ValueError\<close> of NumPy for a shape mismatch, raised exactly when the checks pass, the
  prior is considered, and the weight function returned fewer than \<open>n\<close> entries and not
  exactly one. With predetermined weights none of the three checks runs, and when at least
  \<open>n\<close> of them are given the first \<open>n\<close> are used as they are.
\<close>

theorem calculate_weights_value_error:
  "((\<exists>v. v \<noteq> ShapeMismatch \<and> calculate_weights None n p = Inl (ValueError v))
      \<longleftrightarrow> weights_rejected (take n (weights p n)))
   \<and> (calculate_weights None n p = Inl (ValueError ShapeMismatch)
      \<longleftrightarrow> \<not> weights_rejected (take n (weights p n)) \<and> (consider_prior p \<or> n = 0)
           \<and> length (take n (weights p n)) \<noteq> n \<and> length (take n (weights p n)) \<noteq> 1)
   \<and> (\<forall>e. calculate_weights None n p = Inl e \<longrightarrow> (\<exists>v. e = ValueError v))
   \<and> (\<forall>v. calculate_weights (Some pw) n p = Inl (ValueError v) \<longrightarrow> v = ShapeMismatch)
   \<and> (n \<le> length pw \<longrightarrow>
        calculate_weights (Some pw) n p
          = Inr (normalize (take n pw
                   @ (if consider_prior p \<or> n = 0 then [float_of_optional (prior_weight p)]
                      else []))))"
  by (auto simp add: calculate_weights_def check_weights_result ebind_def assign_slice_def
        split: if_splits)

text \<open>The theorem at a weight function that returns \<open>-1\<close>, and at the predetermined
  weights \<open>-1\<close> and \<open>3\<close>, which are not checked.\<close>

theorem calculate_weights_value_error_witness:
  "weights_rejected (take 1 (weights negative_weights_parameters 1))
   \<and> (\<exists>v. v \<noteq> ShapeMismatch
          \<and> calculate_weights None 1 negative_weights_parameters = Inl (ValueError v))
   \<and> (2::nat) \<le> length [Fin (- 1), Fin 3]
   \<and> calculate_weights (Some [Fin (- 1), Fin 3]) 2 negative_weights_parameters
       = Inr [Fin (- 1 / 2), Fin (3 / 2)]"
proof -
  have h1: "weights_rejected (take 1 (weights negative_weights_parameters 1))"
    by (simp add: negative_weights_parameters_def weights_rejected_def)
  have h2: "(2::nat) \<le> length [Fin (- 1), Fin 3]" by simp
  have h3: "\<not> (consider_prior negative_weights_parameters \<or> (2::nat) = 0)"
    by (simp add: negative_weights_parameters_def)
  have h4: "normalize (take 2 [Fin (- 1), Fin 3]) = [Fin (- 1 / 2), Fin (3 / 2)]"
    by (simp add: normalize_def np_sum_def)
  show ?thesis
    using calculate_weights_value_error
            [of 1 negative_weights_parameters "[Fin (- 1), Fin 3]"]
          calculate_weights_value_error
            [of 2 negative_weights_parameters "[Fin (- 1), Fin 3]"]
          h1 h2 h3 h4
    by simp
qed

text \<open>
  Claim C7 as it is stated fails: asked for three weights, the weight function returns
  two weights \<open>1\<close>; none of the three conditions holds, the prior is considered, and
  assigning two weights to a slice of three raises a \<^verbatim>\<open>ValueError\<close>.
\<close>

theorem calculate_weights_shape_mismatch:
  "calculate_weights None 3 short_weights_parameters = Inl (ValueError ShapeMismatch)
   \<and> \<not> weights_rejected (take 3 (weights short_weights_parameters 3))"
  by (simp add: short_weights_parameters_def calculate_weights_def check_weights_def ebind_def
      assign_slice_def weights_rejected_def np_sum_def)

subsection \<open>Clipping\<close>

lemma fl_max_Fin: "fl_max (Fin x) (Fin y) = Fin (max x y)"
  by (simp add: fl_max_def max_def)

lemma fl_min_Fin: "fl_min (Fin x) (Fin y) = Fin (min x y)"
  by (simp add: fl_min_def min_def)

lemma np_clip_Fin: "np_clip (Fin x) (Fin lo) (Fin hi) = Fin (min (max x lo) hi)"
  by (simp add: np_clip_def fl_max_Fin fl_min_Fin)

subsection \<open>The inverse transformation on a logarithmic scale\<close>

text \<open>
  Claim C5, as amended. For a float parameter on a logarithmic scale the inverse
  transformation only exponentiates: whatever the bounds and the step, a finite sample
  \<open>x\<close> becomes \<open>exp x\<close>. For an integer parameter on a logarithmic scale it
  exponentiates, rounds to the nearest integer and clips into the bounds: with
  \<open>low \<le> high\<close>, a finite sample \<open>x\<close> becomes the integer
  \<open>max low (min high (round (exp x)))\<close>.
\<close>

theorem from_uniform_log:
  "from_uniform_samples (FloatDistribution low high True step) samples = map np_exp samples
   \<and> from_uniform_samples (FloatDistribution low high True step) (map Fin xs)
       = map (\<lambda>x. Fin (exp x)) xs
   \<and> from_uniform_samples (IntDistribution ilow ihigh True istep) samples
       = map (\<lambda>s. np_clip (np_round (np_exp s)) (Fin (of_int ilow)) (Fin (of_int ihigh))) samples
   \<and> (ilow \<le> ihigh \<longrightarrow>
        from_uniform_samples (IntDistribution ilow ihigh True istep) (map Fin xs)
          = map (\<lambda>x. Fin (of_int (max ilow (min ihigh (round_half_even (exp x)))))) xs)"
  by (auto simp add: np_clip_Fin min_def max_def)

text \<open>The theorem at an integer parameter between 1 and 10 and the samples \<open>0\<close>,
  \<open>ln 3\<close> and \<open>ln 20\<close>.\<close>

theorem from_uniform_log_witness:
  "(1::int) \<le> 10
   \<and> from_uniform_samples (IntDistribution 1 10 True 1) (map Fin [0, ln 3, ln 20])
       = [Fin 1, Fin 3, Fin 10]"
proof -
  have "(1::int) \<le> 10" by simp
  moreover have "round_half_even 1 = 1" "round_half_even 3 = 3" "round_half_even 20 = 20"
    by (simp_all add: round_half_even_def)
  ultimately show ?thesis
    using from_uniform_log [of _ _ _ _ "[0, ln 3, ln 20]" 1 10 1]
    by simp
qed

text \<open>
  Claim C5 as it is stated fails for an integer parameter on a logarithmic scale between
  2 and 10: the sample \<open>0\<close> has the exponential \<open>1\<close> and is clipped to \<open>2\<close>, and the
  sample \<open>ln (5/2)\<close> has the exponential \<open>5/2\<close> and is rounded to \<open>2\<close>.
\<close>

theorem from_uniform_int_log_rounds_and_clips:
  "from_uniform_samples (IntDistribution 2 10 True 1) [Fin 0, Fin (ln (5 / 2))] = [Fin 2, Fin 2]
   \<and> np_exp (Fin 0) = Fin 1 \<and> np_exp (Fin (ln (5 / 2))) = Fin (5 / 2)"
  by (simp add: np_clip_Fin round_half_even_def)

subsection \<open>The categorical distributions\<close>

lemma add_one_at_replicate:
  "length js \<le> m \<Longrightarrow>
     add_one_at (replicate m row) js
       = map (\<lambda>j. row[j := fl_add (row ! j) (Fin 1)]) js @ replicate (m - length js) row"
proof (induction js arbitrary: m)
  case Nil
  then show ?case by (cases m) simp_all
next
  case (Cons j js)
  then obtain m' where m: "m = Suc m'" by (cases m) auto
  with Cons show ?case by simp
qed

lemma resolve_indices_length:
  "resolve_indices k is = Inr js \<Longrightarrow> length js = length is \<and> (\<forall>j\<in>set js. j < k)"
proof (induction "is" arbitrary: js)
  case Nil
  then show ?case by simp
next
  case (Cons i "is")
  then show ?case
    by (auto simp: ebind_def resolve_index_def split: sum.splits if_splits)
qed

lemma categorical_rows:
  assumes "length js \<le> m" and "\<forall>j\<in>set js. j < k"
  shows "map normalize (add_one_at (replicate m (replicate k v)) js)
           = map (\<lambda>j. normalize ((replicate k v)[j := fl_add v (Fin 1)])) js
               @ replicate (m - length js) (normalize (replicate k v))"
proof -
  have "map (\<lambda>j. normalize ((replicate k v)[j := fl_add (replicate k v ! j) (Fin 1)])) js
          = map (\<lambda>j. normalize ((replicate k v)[j := fl_add v (Fin 1)])) js"
    using assms(2) by (induction js) auto
  then show ?thesis
    by (simp add: add_one_at_replicate [OF assms(1)] comp_def)
qed

lemma categorical_result:
  assumes pw: "prior_weight p = Some pw"
      and js: "resolve_indices (length choices) (map astype_int observations) = Inr js"
      and m: "m = (if consider_prior p \<or> length observations = 0
                   then length observations + 1 else length observations)"
  shows "calculate_categorical_distributions observations choices p
          = Inr (categorical_distribution
                   (map normalize
                      (add_one_at
                         (replicate m (replicate (length choices) (fl_div pw (Fin (real m)))))
                         js)))"
  using pw js m
  by (simp add: calculate_categorical_distributions_def ebind_def Let_def
        del: replicate.simps replicate_Suc)

text \<open>
  Claim C8. With a prior weight \<open>pw\<close>, \<open>n\<close> observations whose choice indices are
  \<open>js\<close>, and \<open>k\<close> choices, the categorical builder returns, where the prior is
  considered, \<open>n + 1\<close> rows: one row per observation, filled with \<open>pw / (n + 1)\<close>, with
  one added in the column of the observed choice, and divided by its sum, and a last row
  filled with \<open>pw / (n + 1)\<close> and divided by its sum. Where the prior is not considered
  it returns the \<open>n\<close> rows of the observations, filled with \<open>pw / n\<close>. With three
  choices, one observation of the choice 1, the prior considered and a prior weight of
  one, the rows are \<open>[0.2, 0.6, 0.2]\<close> and \<open>[1/3, 1/3, 1/3]\<close>.
\<close>

theorem calculate_categorical_distributions_matrix:
  "(prior_weight p = Some pw
      \<and> resolve_indices (length choices) (map astype_int observations) = Inr js
    \<longrightarrow> calculate_categorical_distributions observations choices p
          = Inr (categorical_distribution
              (let n = length observations; k = length choices
               in if consider_prior p \<or> n = 0
                  then map (\<lambda>j. normalize ((replicate k (fl_div pw (Fin (real (n + 1)))))
                                    [j := fl_add (fl_div pw (Fin (real (n + 1)))) (Fin 1)])) js
                         @ [normalize (replicate k (fl_div pw (Fin (real (n + 1)))))]
                  else map (\<lambda>j. normalize ((replicate k (fl_div pw (Fin (real n))))
                                    [j := fl_add (fl_div pw (Fin (real n))) (Fin 1)])) js)))
   \<and> calculate_categorical_distributions [Fin 1] [''a'', ''b'', ''c''] uniform_parameters
       = Inr (categorical_distribution
                [[Fin (2 / 10), Fin (6 / 10), Fin (2 / 10)],
                 [Fin (1 / 3), Fin (1 / 3), Fin (1 / 3)]])"
proof (intro conjI impI)
  assume a: "prior_weight p = Some pw
      \<and> resolve_indices (length choices) (map astype_int observations) = Inr js"
  then have len: "length js = length observations"
    and bound: "\<forall>j\<in>set js. j < length choices"
    using resolve_indices_length [of "length choices" "map astype_int observations" js] by auto
  show "calculate_categorical_distributions observations choices p
          = Inr (categorical_distribution
              (let n = length observations; k = length choices
               in if consider_prior p \<or> n = 0
                  then map (\<lambda>j. normalize ((replicate k (fl_div pw (Fin (real (n + 1)))))
                                    [j := fl_add (fl_div pw (Fin (real (n + 1)))) (Fin 1)])) js
                         @ [normalize (replicate k (fl_div pw (Fin (real (n + 1)))))]
                  else map (\<lambda>j. normalize ((replicate k (fl_div pw (Fin (real n))))
                                    [j := fl_add (fl_div pw (Fin (real n))) (Fin 1)])) js))"
  proof (cases "consider_prior p \<or> length observations = 0")
    case True
    have m: "length observations + 1
               = (if consider_prior p \<or> length observations = 0
                  then length observations + 1 else length observations)"
      using True by simp
    have le: "length js \<le> length observations + 1" using len by simp
    show ?thesis
      unfolding categorical_result [OF conjunct1 [OF a] conjunct2 [OF a] m]
        categorical_rows [OF le bound]
      using True len by (simp add: Let_def)
  next
    case False
    have m: "length observations
               = (if consider_prior p \<or> length observations = 0
                  then length observations + 1 else length observations)"
      using False by simp
    have le: "length js \<le> length observations" using len by simp
    show ?thesis
      unfolding categorical_result [OF conjunct1 [OF a] conjunct2 [OF a] m]
        categorical_rows [OF le bound]
      using False len by (simp add: Let_def del: replicate.simps replicate_Suc)
  qed
next
  show "calculate_categorical_distributions [Fin 1] [''a'', ''b'', ''c''] uniform_parameters
       = Inr (categorical_distribution
                [[Fin (2 / 10), Fin (6 / 10), Fin (2 / 10)],
                 [Fin (1 / 3), Fin (1 / 3), Fin (1 / 3)]])"
    by (simp add: calculate_categorical_distributions_def uniform_parameters_def ebind_def
      resolve_index_def normalize_def np_sum_def)
qed

text \<open>The theorem at three choices and the observations of the choices 0 and 2, the
  prior not considered.\<close>

theorem calculate_categorical_distributions_matrix_witness:
  "prior_weight no_prior_parameters = Some (Fin 1)
   \<and> resolve_indices (length [''a'', ''b'', ''c'']) (map astype_int [Fin 0, Fin 2]) = Inr [0, 2]
   \<and> calculate_categorical_distributions [Fin 0, Fin 2] [''a'', ''b'', ''c''] no_prior_parameters
       = Inr (categorical_distribution
                [[Fin (3 / 5), Fin (1 / 5), Fin (1 / 5)], [Fin (1 / 5), Fin (1 / 5), Fin (3 / 5)]])"
proof -
  have h1: "prior_weight no_prior_parameters = Some (Fin 1)"
    by (simp add: no_prior_parameters_def)
  have h2: "resolve_indices (length [''a'', ''b'', ''c'']) (map astype_int [Fin 0, Fin 2])
              = Inr [0, 2]"
    by (simp add: resolve_index_def ebind_def)
  have h3: "\<not> consider_prior no_prior_parameters" by (simp add: no_prior_parameters_def)
  show ?thesis
    using calculate_categorical_distributions_matrix
            [of no_prior_parameters "Fin 1" "[''a'', ''b'', ''c'']" "[Fin 0, Fin 2]" "[0, 2]"]
          h1 h2 h3
    by (simp add: normalize_def np_sum_def)
qed

subsection \<open>An estimator without observations\<close>

lemma fl_mul_one_left: "fl_mul (Fin 1) q = q"
  by (cases q) (simp_all add: signed_inf_def)

lemma fl_div_one: "fl_div q (Fin 1) = q"
  by (cases q) (simp_all add: signed_inf_def)

lemma length_argsort: "length (argsort r xs) = length xs"
  by (simp add: argsort_def)

lemma length_neighbour_sigmas: "length (neighbour_sigmas e mus low high step) = length mus"
  by (simp add: neighbour_sigmas_def Let_def length_argsort)

lemma calculate_weights_no_observations:
  "pws = None \<or> pws = Some [] \<Longrightarrow>
   calculate_weights pws 0 p
     = Inr [fl_div (float_of_optional (prior_weight p)) (float_of_optional (prior_weight p))]"
  by (auto simp add: calculate_weights_def check_weights_def ebind_def assign_slice_def
        normalize_def np_sum_def fl_add_zero_left)

lemma calculate_weights_no_observations':
  "calculate_weights pws 0 p
     = Inr [fl_div (float_of_optional (prior_weight p)) (float_of_optional (prior_weight p))]"
  by (cases pws) (auto simp add: calculate_weights_def check_weights_def ebind_def assign_slice_def
        normalize_def np_sum_def fl_add_zero_left)

lemma singleton_update: "length xs = Suc 0 \<Longrightarrow> (map f xs)[0 := v] = [v]"
  by (cases xs) auto

lemma numerical_no_observations:
  "calculate_numerical_distributions d [] low high step p
     = (case step of
          None \<Rightarrow>
            truncnorm_distribution [fl_mul (Fin (1 / 2)) (fl_add low high)]
              [fl_add (fl_sub high low) (Fin 0)] [low] [high]
        | Some q \<Rightarrow>
            discrete_truncnorm_distribution [fl_mul (Fin (1 / 2)) (fl_add low high)]
              [fl_add (fl_sub high low) q] [low] [high] [q])"
  by (simp add: calculate_numerical_distributions_def Let_def fl_mul_one_left step_or_0_def
        singleton_update length_neighbour_sigmas split: option.splits)

lemma calculate_distributions_no_observations:
  "calculate_distributions d [] distribution p
     = (if is_numerical distribution \<or> prior_weight p \<noteq> None
        then Inr (prior_component distribution (float_of_optional (prior_weight p)))
        else Inl AssertionError)"
proof (cases distribution)
  case (CategoricalDistribution choices)
  then show ?thesis
    by (auto simp add: calculate_distributions_def calculate_categorical_distributions_def
          ebind_def prior_numerical_def float_of_optional_def fl_div_one split: option.splits)
next
  case (FloatDistribution low high is_log step)
  then show ?thesis
    by (simp add: calculate_distributions_def numerical_no_observations prior_numerical_def
          split: prod.splits option.splits)
next
  case (IntDistribution low high is_log step)
  then show ?thesis
    by (simp add: calculate_distributions_def numerical_no_observations prior_numerical_def
          split: prod.splits option.splits)
qed


lemma length_to_uniform_samples: "length (to_uniform_samples d xs) = length xs"
  by (cases d) auto

lemma to_uniform_items_lengths:
  "to_uniform_items obs ss = Inr t \<Longrightarrow> map (\<lambda>c. length (snd c)) t = map (\<lambda>c. length (snd c)) obs"
proof (induction obs arbitrary: t)
  case Nil
  then show ?case by simp
next
  case (Cons c obs)
  obtain name xs where c: "c = (name, xs)" by (cases c)
  from Cons.prems show ?case
    by (auto simp: c ebind_def length_to_uniform_samples split: option.splits sum.splits
          dest: Cons.IH)
qed

lemma rec_fromarrays_empty:
  assumes "rec_fromarrays t = Inr t'" and "t = c # cs" and "snd c = []"
  shows "t' = t \<and> (\<forall>c\<in>set t. snd c = [])"
  using assms by (cases c) (auto simp: rec_fromarrays_def list_all_iff split: if_splits)

lemma transform_to_uniform_empty:
  assumes "transform_to_uniform ((name, []) # rest) ss = Inr t"
  shows "\<forall>c\<in>set t. snd c = []"
proof -
  from assms obtain u where u: "to_uniform_items ((name, []) # rest) ss = Inr u"
    and r: "rec_fromarrays u = Inr t"
    by (auto simp: transform_to_uniform_def ebind_def split: sum.splits)
  from to_uniform_items_lengths [OF u] obtain c cs where "u = c # cs" "snd c = []"
    by (cases u) auto
  with rec_fromarrays_empty [OF r] show ?thesis by blast
qed

lemma field_empty:
  "\<forall>c\<in>set t. snd c = [] \<Longrightarrow> field t param = Inr xs \<Longrightarrow> xs = []"
  by (auto simp: field_def split: option.splits dest!: map_of_SomeD)

lemma field_cases: "field t param = Inl (ValueError NoField) \<or> (\<exists>xs. field t param = Inr xs)"
  by (simp add: field_def split: option.splits)

lemma product_distribution_no_observations:
  assumes "\<forall>c\<in>set t. snd c = []"
  shows "product_distribution d t p ss = Inr comps
           \<Longrightarrow> comps = prior_components ss (float_of_optional (prior_weight p))"
proof (induction ss arbitrary: comps)
  case Nil
  then show ?case by (simp add: prior_components_def)
next
  case (Cons c ss)
  obtain param dn where c: "c = (param, dn)" by (cases c)
  from Cons.prems obtain xs comp rest
    where f: "field t param = Inr xs"
      and cd: "calculate_distributions d xs dn p = Inr comp"
      and pr: "product_distribution d t p ss = Inr rest"
      and comps: "comps = (param, comp) # rest"
    by (auto simp: c ebind_def split: sum.splits)
  have xs: "xs = []" using field_empty [OF assms f] .
  have "comp = prior_component dn (float_of_optional (prior_weight p))"
    using cd unfolding xs calculate_distributions_no_observations by (simp split: if_splits)
  with Cons.IH [OF pr] show ?case by (simp add: comps c prior_components_def)
qed

lemma product_distribution_consider_prior:
  assumes "\<forall>c\<in>set t. snd c = []"
  shows "product_distribution d t (p\<lparr>consider_prior := b\<rparr>) ss = product_distribution d t p ss"
proof (induction ss)
  case Nil
  then show ?case by simp
next
  case (Cons c ss)
  obtain param dn where c: "c = (param, dn)" by (cases c)
  show ?case
  proof (cases "field t param")
    case (Inl e)
    then show ?thesis by (simp add: c ebind_def)
  next
    case (Inr xs)
    have xs: "xs = []" using field_empty [OF assms Inr] .
    show ?thesis
      using Cons.IH by (simp add: c Inr xs ebind_def calculate_distributions_no_observations)
  qed
qed

lemma np_sum_replicate: "np_sum (replicate k (Fin x)) = Fin (real k * x)"
proof -
  have "np_sum (map Fin (replicate k x)) = Fin (sum_list (replicate k x))"
    by (rule np_sum_Fin)
  then show ?thesis by (simp add: sum_list_replicate)
qed

lemma normalize_replicate:
  "0 < k \<Longrightarrow> x \<noteq> 0 \<Longrightarrow> normalize (replicate k (Fin x)) = replicate k (Fin (1 / real k))"
  by (simp add: normalize_def np_sum_replicate)

text \<open>
  Claim C2. When the observations are empty and the constructor returns an estimator, the
  mixture has exactly one weight, the prior weight divided by itself, and every parameter
  has exactly one component, its prior component: the prior centre and width of a
  numerical parameter, the row of the prior weight divided by its sum of a categorical
  one. The constructor returns the same whatever \<^verbatim>\<open>consider_prior\<close> is set to. For a prior
  weight that is finite and not zero the weight is \<open>1\<close> and the row of a categorical
  parameter with \<open>k\<close> choices holds \<open>1 / k\<close> in every column.
\<close>

theorem init_no_observations:
  "(init ((name, []) # rest) ss p pws = Inr est \<longrightarrow>
      search_space_of est = ss
      \<and> mixture_of est
          = mixture_distribution (prior_components ss (float_of_optional (prior_weight p)))
              [fl_div (float_of_optional (prior_weight p)) (float_of_optional (prior_weight p))])
   \<and> init ((name, []) # rest) ss (p\<lparr>consider_prior := b\<rparr>) pws = init ((name, []) # rest) ss p pws
   \<and> (x \<noteq> 0 \<longrightarrow> fl_div (Fin x) (Fin x) = Fin 1)
   \<and> (x \<noteq> 0 \<and> choices \<noteq> [] \<longrightarrow>
        prior_component (CategoricalDistribution choices) (Fin x)
          = categorical_distribution [replicate (length choices) (Fin (1 / real (length choices)))])"
proof (intro conjI impI)
  assume ok: "init ((name, []) # rest) ss p pws = Inr est"
  then obtain t comps
    where t: "transform_to_uniform ((name, []) # rest) ss = Inr t"
      and pr: "product_distribution (length ss) t p ss = Inr comps"
      and est: "est = \<lparr>search_space_of = ss,
                       mixture_of = mixture_distribution comps
                         [fl_div (float_of_optional (prior_weight p))
                            (float_of_optional (prior_weight p))]\<rparr>"
    by (auto simp: init_def ebind_def calculate_weights_no_observations'
          split: sum.splits if_splits option.splits)
  have "comps = prior_components ss (float_of_optional (prior_weight p))"
    using product_distribution_no_observations [OF transform_to_uniform_empty [OF t] pr] .
  then show "search_space_of est = ss"
    and "mixture_of est
          = mixture_distribution (prior_components ss (float_of_optional (prior_weight p)))
              [fl_div (float_of_optional (prior_weight p)) (float_of_optional (prior_weight p))]"
    by (simp_all add: est)
next
  show "init ((name, []) # rest) ss (p\<lparr>consider_prior := b\<rparr>) pws = init ((name, []) # rest) ss p pws"
  proof (cases "transform_to_uniform ((name, []) # rest) ss")
    case (Inl e)
    then show ?thesis
      by (simp add: init_def ebind_def calculate_weights_no_observations' split: option.splits)
  next
    case (Inr t)
    show ?thesis
      using product_distribution_consider_prior [OF transform_to_uniform_empty [OF Inr]]
      by (simp add: init_def ebind_def calculate_weights_no_observations' Inr split: option.splits)
  qed
next
  assume "x \<noteq> 0" then show "fl_div (Fin x) (Fin x) = Fin 1" by simp
next
  assume "x \<noteq> 0 \<and> choices \<noteq> []"
  then show "prior_component (CategoricalDistribution choices) (Fin x)
          = categorical_distribution [replicate (length choices) (Fin (1 / real (length choices)))]"
    by (simp add: prior_numerical_def normalize_replicate)
qed


text \<open>The theorem at a float parameter between 0 and 1 and a categorical parameter of
  two choices, with \<^verbatim>\<open>consider_prior\<close> switched off.\<close>

theorem init_no_observations_witness:
  "init [(''x'', []), (''c'', [])] mixed_search_space no_prior_parameters None
     = Inr \<lparr>search_space_of = mixed_search_space,
            mixture_of = mixture_distribution
              [(''x'', truncnorm_distribution [Fin (1 / 2)] [Fin 1] [Fin 0] [Fin 1]),
               (''c'', categorical_distribution [[Fin (1 / 2), Fin (1 / 2)]])]
              [Fin 1]\<rparr>
   \<and> (1::real) \<noteq> 0"
proof -
  obtain est where est: "init [(''x'', []), (''c'', [])] mixed_search_space no_prior_parameters None = Inr est"
    by (simp add: init_def mixed_search_space_def no_prior_parameters_def ebind_def
          calculate_weights_no_observations' transform_to_uniform_def rec_fromarrays_def
          field_def calculate_distributions_no_observations)
  have pc: "prior_components mixed_search_space (Fin 1)
              = [(''x'', truncnorm_distribution [Fin (1 / 2)] [Fin 1] [Fin 0] [Fin 1]),
                 (''c'', categorical_distribution [[Fin (1 / 2), Fin (1 / 2)]])]"
    by (simp add: prior_components_def mixed_search_space_def prior_numerical_def
          working_bounds_def fl_sub_def normalize_def np_sum_def)
  have pw: "float_of_optional (prior_weight no_prior_parameters) = Fin 1"
    by (simp add: no_prior_parameters_def float_of_optional_def)
  from init_no_observations [of "''x''" "[(''c'', [])]" mixed_search_space no_prior_parameters
        None est True 1 "[''a'']"] est
  have "search_space_of est = mixed_search_space"
    and "mixture_of est = mixture_distribution (prior_components mixed_search_space (Fin 1)) [Fin 1]"
    by (simp_all add: pw)
  then have "est = \<lparr>search_space_of = mixed_search_space,
            mixture_of = mixture_distribution
              [(''x'', truncnorm_distribution [Fin (1 / 2)] [Fin 1] [Fin 0] [Fin 1]),
               (''c'', categorical_distribution [[Fin (1 / 2), Fin (1 / 2)]])]
              [Fin 1]\<rparr>"
    by (simp add: pc)
  with est show ?thesis by simp
qed

subsection \<open>Where the prior weight is needed\<close>

lemma categorical_needs_prior_weight:
  "prior_weight p = None \<Longrightarrow> calculate_categorical_distributions obs choices p = Inl AssertionError"
  by (simp add: calculate_categorical_distributions_def ebind_def Let_def)

lemma numerical_prior_weight:
  "calculate_numerical_distributions d obs low high step (p\<lparr>prior_weight := q\<rparr>)
     = calculate_numerical_distributions d obs low high step p"
  by (simp add: calculate_numerical_distributions_def Let_def cong: option.case_cong)

lemma calculate_distributions_numerical:
  "is_numerical dn \<Longrightarrow>
     calculate_distributions d obs dn p
       = (case the (distribution_bounds dn) of
            (low, high, step) \<Rightarrow> Inr (calculate_numerical_distributions d obs low high step p))"
  by (cases dn) (simp_all add: calculate_distributions_def)

lemma product_distribution_numerical:
  assumes "numerical_search_space ss"
  shows "product_distribution d t (p\<lparr>prior_weight := q\<rparr>) ss = product_distribution d t p ss
         \<and> product_distribution d t p ss \<noteq> Inl AssertionError"
  using assms
proof (induction ss)
  case Nil
  then show ?case by simp
next
  case (Cons c ss)
  obtain param dn where c: "c = (param, dn)" by (cases c)
  from Cons.prems have num: "is_numerical dn" and rest: "numerical_search_space ss"
    by (simp_all add: numerical_search_space_def c)
  note ih = Cons.IH [OF rest]
  show ?case
    using field_cases [of t param] ih
    by (auto simp: c ebind_def calculate_distributions_numerical [OF num] numerical_prior_weight
          split: prod.splits sum.splits)
qed

lemma to_uniform_items_error:
  "to_uniform_items obs ss = Inl e \<Longrightarrow> e = KeyError"
proof (induction obs)
  case Nil
  then show ?case by simp
next
  case (Cons c obs)
  obtain name xs where c: "c = (name, xs)" by (cases c)
  from Cons show ?case
    by (auto simp: c ebind_def split: option.splits sum.splits)
qed

lemma transform_to_uniform_error:
  "transform_to_uniform obs ss \<noteq> Inl AssertionError"
proof
  assume a: "transform_to_uniform obs ss = Inl AssertionError"
  show False
  proof (cases "to_uniform_items obs ss")
    case (Inl e)
    with a to_uniform_items_error [OF Inl] show False
      by (simp add: transform_to_uniform_def ebind_def)
  next
    case (Inr t)
    with a show False
      by (auto simp: transform_to_uniform_def ebind_def rec_fromarrays_def
            split: list.splits if_splits prod.splits)
  qed
qed

lemma calculate_weights_prior_weight:
  "\<not> consider_prior p \<Longrightarrow> 0 < n \<Longrightarrow>
     calculate_weights pws n (p\<lparr>prior_weight := q\<rparr>) = calculate_weights pws n p"
  by (simp add: calculate_weights_def cong: option.case_cong)

lemma calculate_weights_error:
  "calculate_weights pws n p \<noteq> Inl AssertionError"
  by (auto simp: calculate_weights_def ebind_def check_weights_def assign_slice_def
        split: option.splits sum.splits if_splits)

lemma product_distribution_categorical:
  assumes "prior_weight p = None" and "\<not> numerical_search_space ss"
  shows "\<exists>e. product_distribution d t p ss = Inl e"
  using assms(2)
proof (induction ss)
  case Nil
  then show ?case by (simp add: numerical_search_space_def)
next
  case (Cons c ss)
  obtain param dn where c: "c = (param, dn)" by (cases c)
  show ?case
  proof (cases "field t param")
    case (Inl e)
    then show ?thesis by (simp add: c ebind_def)
  next
    case (Inr obs)
    show ?thesis
    proof (cases "is_numerical dn")
      case False
      then obtain choices where "dn = CategoricalDistribution choices" by (cases dn) simp_all
      then show ?thesis
        using Inr categorical_needs_prior_weight [OF assms(1)]
        by (simp add: c ebind_def calculate_distributions_def)
    next
      case True
      then have "\<not> numerical_search_space ss"
        using Cons.prems by (simp add: numerical_search_space_def c)
      from Cons.IH [OF this] obtain e where "product_distribution d t p ss = Inl e" ..
      then show ?thesis
        using Inr by (simp add: c ebind_def split: sum.splits)
    qed
  qed
qed

lemma init_categorical_fails:
  assumes "prior_weight p = None" and "\<not> numerical_search_space ss"
  shows "\<exists>e. init obs ss p pws = Inl e"
proof (cases obs)
  case Nil
  then show ?thesis by (simp add: init_def)
next
  case (Cons c rest)
  obtain name first where c: "c = (name, first)" by (cases c)
  have "\<And>t x. product_distribution (length ss) t p ss \<noteq> Inr x"
    using product_distribution_categorical [OF assms, of "length ss"] by (metis sum.distinct(1))
  then show ?thesis
    by (auto simp: init_def Cons c Let_def ebind_def split: sum.splits option.splits)
qed

lemma init_numerical_no_assertion:
  assumes "numerical_search_space ss"
  shows "init obs ss p None \<noteq> Inl AssertionError"
proof (cases obs)
  case Nil
  then show ?thesis by (simp add: init_def)
next
  case (Cons c rest)
  obtain name first where c: "c = (name, first)" by (cases c)
  note pd = product_distribution_numerical [OF assms]
  show ?thesis
    using calculate_weights_error [of None "length first" p]
      transform_to_uniform_error [of "(name, first) # rest" ss] pd
    by (auto simp: init_def Cons c Let_def ebind_def split: sum.splits)
qed

lemma fl_add_NaN_right: "fl_add a NaN = NaN"
  by (cases a) simp_all

lemma np_sum_NaN_last: "np_sum (w @ [NaN]) = NaN"
  by (simp add: np_sum_def fl_add_NaN_right)

lemma fl_div_NaN_right: "fl_div a NaN = NaN"
  by (cases a) simp_all

lemma normalize_NaN_last: "normalize (w @ [NaN]) = replicate (length w + 1) NaN"
  by (simp add: normalize_def np_sum_NaN_last fl_div_NaN_right map_replicate_const
        replicate_append_same)

lemma calculate_weights_null_prior:
  assumes "prior_weight p = None" and "consider_prior p \<or> n = 0"
      and "\<not> weights_rejected (take n (weights p n))" and "n \<le> length (weights p n)"
  shows "calculate_weights None n p = Inr (replicate (n + 1) NaN)"
  using assms
  by (simp add: calculate_weights_def check_weights_result ebind_def assign_slice_def
        float_of_optional_def normalize_NaN_last)

text \<open>
  Claim C6, as amended. The categorical builder needs a prior weight in both of its
  branches: without one it fails its assertion whatever \<^verbatim>\<open>consider_prior\<close> and the
  observations are, so that on a search space with a categorical parameter the constructor
  without a prior weight always fails. On a search space of numerical parameters only,
  the constructor without predetermined weights never fails an assertion, whatever the prior
  weight, \<^verbatim>\<open>consider_prior\<close> and the observations are; \<^verbatim>\<open>_calculate_weights\<close> does not
  ask for a prior weight: where the prior is considered and the weight function gives at
  least \<open>n\<close> weights that pass their checks, a missing prior weight is stored as NaN and
  every weight returned is NaN; and with \<^verbatim>\<open>consider_prior\<close> off and at least one
  observation, the constructor returns what it returns with any other prior weight.
\<close>

theorem prior_weight_requirement:
  "(prior_weight p = None \<longrightarrow>
      calculate_categorical_distributions observations choices p = Inl AssertionError)
   \<and> (prior_weight p = None \<and> \<not> numerical_search_space ss \<longrightarrow>
        (\<exists>e. init obs ss p pws = Inl e))
   \<and> (numerical_search_space ss \<longrightarrow> init obs ss p None \<noteq> Inl AssertionError)
   \<and> (prior_weight p = None \<and> (consider_prior p \<or> n = 0)
        \<and> \<not> weights_rejected (take n (weights p n)) \<and> n \<le> length (weights p n) \<longrightarrow>
        calculate_weights None n p = Inr (replicate (n + 1) NaN))
   \<and> (numerical_search_space ss \<and> \<not> consider_prior p \<and> first \<noteq> [] \<longrightarrow>
        init ((name, first) # rest) ss (p\<lparr>prior_weight := q\<rparr>) pws
          = init ((name, first) # rest) ss p pws)"
proof (intro conjI impI)
  assume "prior_weight p = None"
  then show "calculate_categorical_distributions observations choices p = Inl AssertionError"
    by (rule categorical_needs_prior_weight)
next
  assume "prior_weight p = None \<and> \<not> numerical_search_space ss"
  then show "\<exists>e. init obs ss p pws = Inl e"
    using init_categorical_fails by blast
next
  assume "numerical_search_space ss"
  then show "init obs ss p None \<noteq> Inl AssertionError"
    by (rule init_numerical_no_assertion)
next
  assume "prior_weight p = None \<and> (consider_prior p \<or> n = 0)
        \<and> \<not> weights_rejected (take n (weights p n)) \<and> n \<le> length (weights p n)"
  then show "calculate_weights None n p = Inr (replicate (n + 1) NaN)"
    using calculate_weights_null_prior by blast
next
  assume a: "numerical_search_space ss \<and> \<not> consider_prior p \<and> first \<noteq> []"
  then have num: "numerical_search_space ss" and cp: "\<not> consider_prior p"
    and n: "0 < length first" by simp_all
  note pd = product_distribution_numerical [OF num]
  show "init ((name, first) # rest) ss (p\<lparr>prior_weight := q\<rparr>) pws
            = init ((name, first) # rest) ss p pws"
    using calculate_weights_prior_weight [OF cp n] pd
    by (simp add: init_def Let_def)
qed

text \<open>The theorem without a prior weight: at a categorical parameter with one
  observation, at a float and a categorical parameter, and at a float parameter between 0
  and 1 with the observation \<open>1/2\<close>, with the prior considered and without.\<close>

theorem prior_weight_requirement_witness:
  "prior_weight null_prior_parameters = None
   \<and> calculate_categorical_distributions [Fin 0] [''a'', ''b''] null_prior_parameters
       = Inl AssertionError
   \<and> \<not> numerical_search_space mixed_search_space
   \<and> (\<exists>e. init [(''x'', [Fin (1 / 2)]), (''c'', [Fin 1])] mixed_search_space
             null_prior_parameters None = Inl e)
   \<and> numerical_search_space float_search_space
   \<and> init [(''x'', [Fin (1 / 2)])] float_search_space null_prior_considered_parameters None
       \<noteq> Inl AssertionError
   \<and> prior_weight null_prior_considered_parameters = None
   \<and> consider_prior null_prior_considered_parameters
   \<and> \<not> weights_rejected (take 1 (weights null_prior_considered_parameters 1))
   \<and> calculate_weights None 1 null_prior_considered_parameters = Inr [NaN, NaN]
   \<and> \<not> consider_prior null_prior_parameters
   \<and> [Fin (1 / 2)] \<noteq> []
   \<and> init [(''x'', [Fin (1 / 2)])] float_search_space
        (null_prior_parameters\<lparr>prior_weight := Some (Fin 1)\<rparr>) None
       = init [(''x'', [Fin (1 / 2)])] float_search_space null_prior_parameters None"
proof -
  have h1: "prior_weight null_prior_parameters = None"
    by (simp add: null_prior_parameters_def)
  have h2: "numerical_search_space float_search_space"
    by (simp add: numerical_search_space_def float_search_space_def)
  have h3: "\<not> consider_prior null_prior_parameters"
    by (simp add: null_prior_parameters_def)
  have h4: "[Fin (1 / 2)] \<noteq> []" by simp
  have h5: "\<not> numerical_search_space mixed_search_space"
    by (simp add: numerical_search_space_def mixed_search_space_def)
  have h6: "prior_weight null_prior_considered_parameters = None"
    by (simp add: null_prior_considered_parameters_def)
  have h7: "consider_prior null_prior_considered_parameters"
    by (simp add: null_prior_considered_parameters_def)
  have h8: "\<not> weights_rejected (take 1 (weights null_prior_considered_parameters 1))"
    by (simp add: null_prior_considered_parameters_def weights_rejected_def np_sum_def)
  have h9: "(1::nat) \<le> length (weights null_prior_considered_parameters 1)"
    by (simp add: null_prior_considered_parameters_def)
  have r: "replicate (1 + 1) NaN = [NaN, NaN]" by (simp add: numeral_2_eq_2)
  note t1 = prior_weight_requirement
    [where p = null_prior_parameters and observations = "[Fin 0]" and choices = "[''a'', ''b'']"
       and ss = mixed_search_space and obs = "[(''x'', [Fin (1 / 2)]), (''c'', [Fin 1])]"
       and pws = None and n = 0 and first = "[]" and name = "''x''" and rest = "[]"
       and q = None]
  note t2 = prior_weight_requirement
    [where p = null_prior_considered_parameters and observations = "[Fin 0]"
       and choices = "[''a'', ''b'']"
       and ss = float_search_space and obs = "[(''x'', [Fin (1 / 2)])]"
       and pws = None and n = 1 and first = "[]" and name = "''x''" and rest = "[]"
       and q = None]
  note t3 = prior_weight_requirement
    [where p = null_prior_parameters and observations = "[Fin 0]" and choices = "[''a'', ''b'']"
       and ss = float_search_space and obs = "[(''x'', [Fin (1 / 2)])]"
       and pws = None and n = 0 and first = "[Fin (1 / 2)]" and name = "''x''" and rest = "[]"
       and q = "Some (Fin 1)"]
  have c1: "calculate_categorical_distributions [Fin 0] [''a'', ''b''] null_prior_parameters
              = Inl AssertionError"
    using t1 [THEN conjunct1] h1 by blast
  have c2: "\<exists>e. init [(''x'', [Fin (1 / 2)]), (''c'', [Fin 1])] mixed_search_space
             null_prior_parameters None = Inl e"
    using t1 [THEN conjunct2, THEN conjunct1] h1 h5 by blast
  have c3: "init [(''x'', [Fin (1 / 2)])] float_search_space null_prior_considered_parameters None
       \<noteq> Inl AssertionError"
    using t2 [THEN conjunct2, THEN conjunct2, THEN conjunct1] h2 by blast
  have c4: "calculate_weights None 1 null_prior_considered_parameters = Inr [NaN, NaN]"
    using t2 [THEN conjunct2, THEN conjunct2, THEN conjunct2, THEN conjunct1] h6 h7 h8 h9
    unfolding r [symmetric] by blast
  have c5: "init [(''x'', [Fin (1 / 2)])] float_search_space
        (null_prior_parameters\<lparr>prior_weight := Some (Fin 1)\<rparr>) None
       = init [(''x'', [Fin (1 / 2)])] float_search_space null_prior_parameters None"
    using t3 [THEN conjunct2, THEN conjunct2, THEN conjunct2, THEN conjunct2] h2 h3 h4 by blast
  show ?thesis using h1 c1 h5 c2 h2 c3 h6 h7 h8 c4 h3 h4 c5 by blast
qed

text \<open>
  Claim C6 as it is stated fails: with a float and a categorical parameter, one
  observation, \<^verbatim>\<open>consider_prior\<close> off and no prior weight, the constructor fails the
  assertion of the categorical builder.
\<close>

theorem init_categorical_null_prior_weight:
  "\<not> consider_prior null_prior_parameters
   \<and> prior_weight null_prior_parameters = None
   \<and> init [(''x'', [Fin (1 / 2)]), (''c'', [Fin 1])] mixed_search_space null_prior_parameters None
       = Inl AssertionError"
  by (simp add: null_prior_parameters_def mixed_search_space_def init_def ebind_def
        calculate_weights_def check_weights_def np_sum_def normalize_def
        transform_to_uniform_def rec_fromarrays_def field_def
        calculate_distributions_def working_bounds_def
        calculate_categorical_distributions_def)



subsection \<open>The widths of the numerical distributions\<close>



















subsection \<open>What the weights do to the array of the caller\<close>

text \<open>The store model returns the values of \<open>calculate_weights\<close> and of \<open>init\<close>.\<close>

lemma length_normalize: "length (normalize xs) = length xs"
  by (simp add: normalize_def)

lemma np_read_slice_to: "np_read h (slice_to a n) = take n (np_read h a)"
  by (simp add: np_read_def slice_to_def min.commute)

lemma valid_array_slice_to: "valid_array h a \<Longrightarrow> valid_array h (slice_to a n)"
  by (auto simp: valid_array_def slice_to_def)

lemma length_np_read: "valid_array h a \<Longrightarrow> length (np_read h a) = extent a"
  by (auto simp: valid_array_def np_read_def)

lemma np_read_np_write:
  assumes "valid_array h a" and "length xs = extent a"
  shows "np_read (np_write h a xs) a = xs"
  using assms by (auto simp: valid_array_def np_read_def np_write_def)

lemma np_write_other:
  "b \<noteq> buffer a \<Longrightarrow> np_write h a xs ! b = h ! b"
  by (simp add: np_write_def)

lemma length_np_write: "length (np_write h a xs) = length h"
  by (simp add: np_write_def)

lemma np_read_after_slice_write:
  assumes v: "valid_array h a" and len: "length xs = min n (extent a)"
  shows "np_read (np_write h (slice_to a n) xs) a = xs @ drop n (np_read h a)"
proof -
  define old where "old = h ! buffer a"
  have b: "buffer a < length h" and e: "start a + extent a \<le> length old"
    using v by (simp_all add: valid_array_def old_def)
  have "np_read (np_write h (slice_to a n) xs) a
          = take (extent a) (drop (start a)
              (take (start a) old @ xs @ drop (start a + min n (extent a)) old))"
    using b by (simp add: np_read_def np_write_def slice_to_def old_def)
  also have "\<dots> = take (extent a) (xs @ drop (start a + min n (extent a)) old)"
    using e by simp
  also have "\<dots> = xs @ take (extent a - min n (extent a)) (drop (start a + min n (extent a)) old)"
    using len by simp
  also have "take (extent a - min n (extent a)) (drop (start a + min n (extent a)) old)
               = drop n (take (extent a) (drop (start a) old))"
    by (cases "n \<le> extent a") (simp_all add: drop_take add.commute min_def)
  finally show ?thesis by (simp add: np_read_def old_def)
qed

lemma calculate_weights_store_in_place:
  assumes "\<not> consider_prior p" and "0 < n"
  shows "calculate_weights_store (Some a) n p h
           = Inr (slice_to a n, np_write h (slice_to a n) (normalize (take n (np_read h a))))"
  using assms by (simp add: calculate_weights_store_def ebind_def np_read_slice_to)


lemma calculate_weights_store_fresh:
  assumes "consider_prior p \<or> n = 0"
      and "calculate_weights_store (Some a) n p h = Inr (w, h')"
  shows "buffer w = length h \<and> take (length h) h' = h"
  using assms
  by (auto simp: calculate_weights_store_def ebind_def np_alloc_def np_write_def
        split: sum.splits)

lemma np_read_unchanged:
  assumes "valid_array h a" and "take (length h) h' = h"
  shows "np_read h' a = np_read h a"
proof -
  have "buffer a < length h" using assms(1) by (simp add: valid_array_def)
  then have "h' ! buffer a = take (length h) h' ! buffer a" by simp
  then show ?thesis by (simp add: np_read_def assms(2))
qed

lemma calculate_weights_store_values:
  assumes "valid_array h a"
  shows "(case calculate_weights_store (Some a) n p h of
            Inl e \<Rightarrow> Inl e
          | Inr (w, h') \<Rightarrow> Inr (np_read h' w))
           = calculate_weights (Some (np_read h a)) n p"
proof (cases "consider_prior p \<or> n = 0")
  case False
  have v: "valid_array h (slice_to a n)" by (rule valid_array_slice_to [OF assms])
  have len: "length (normalize (take n (np_read h a))) = extent (slice_to a n)"
    using length_np_read [OF assms] by (simp add: length_normalize slice_to_def min.commute)
  show ?thesis
    using False np_read_np_write [OF v len]
    by (simp add: calculate_weights_store_in_place calculate_weights_def ebind_def)
next
  case True
  define ws where "ws = take n (np_read h a)"
  define z where "z = \<lparr>buffer = length h, start = 0, extent = n + 1\<rparr>"
  have b: "buffer a < length h" using assms by (simp add: valid_array_def)
  have r: "np_read (h @ [replicate (n + 1) (Fin 0)]) (slice_to a n) = ws"
    using b by (simp add: np_read_def slice_to_def ws_def nth_append min.commute)
  show ?thesis
  proof (cases "assign_slice n ws")
    case (Inl e)
    then show ?thesis
      using True r
      by (simp add: calculate_weights_store_def calculate_weights_def ebind_def np_alloc_def
            ws_def [symmetric])
  next
    case (Inr xs)
    then have lx: "length xs = n" by (auto simp: assign_slice_def split: if_splits)
    have "np_read (np_write (np_write (h @ [replicate (n + 1) (Fin 0)]) z (xs @ [q])) z
                     (normalize (np_read (np_write (h @ [replicate (n + 1) (Fin 0)]) z (xs @ [q])) z))) z
            = normalize (xs @ [q])" for q
      using lx by (simp add: np_read_def np_write_def z_def length_normalize)
    then show ?thesis
      using True r Inr
      by (simp add: calculate_weights_store_def calculate_weights_def ebind_def np_alloc_def
            ws_def [symmetric] z_def)
  qed
qed

lemma init_store_values:
  assumes "valid_array h a"
  shows "(case init_store observations ss p (Some a) h of
            Inl e \<Rightarrow> Inl e
          | Inr (est, h') \<Rightarrow> Inr est)
           = init observations ss p (Some (np_read h a))"
proof (cases observations)
  case Nil
  then show ?thesis by (simp add: init_store_def init_def)
next
  case (Cons c rest)
  obtain name first where c: "c = (name, first)" by (cases c)
  note cw = calculate_weights_store_values [OF assms, of "length first" p]
  note len = length_np_read [OF assms]
  show ?thesis
  proof (cases "extent a = length first")
    case False
    then have "length first \<noteq> extent a" by simp
    then show ?thesis by (simp add: init_store_def init_def Cons c len)
  next
    case True
    show ?thesis
    proof (cases "calculate_weights_store (Some a) (length first) p h")
      case (Inl e)
      with cw have "calculate_weights (Some (np_read h a)) (length first) p = Inl e" by simp
      then show ?thesis
        using True Inl by (simp add: init_store_def init_def Cons c ebind_def len)
    next
      case (Inr r)
      obtain w h' where r: "r = (w, h')" by (cases r)
      from cw Inr r
      have pure: "calculate_weights (Some (np_read h a)) (length first) p = Inr (np_read h' w)"
        by simp
      show ?thesis
      proof (cases "transform_to_uniform ((name, first) # rest) ss")
        case (Inl e)
        then show ?thesis
          using True by (simp add: init_store_def init_def Cons c ebind_def len Inr r pure)
      next
        case t: (Inr t)
        show ?thesis
          using True
          by (cases "product_distribution (length ss) t p ss")
             (simp_all add: init_store_def init_def Cons c ebind_def len Inr r pure t)
      qed
    qed
  qed
qed

lemma init_store_weights:
  assumes "init_store ((name, first) # rest) ss p (Some a) h = Inr (est, h')"
  shows "length first = extent a
         \<and> (\<exists>w. calculate_weights_store (Some a) (length first) p h = Inr (w, h'))"
proof -
  have n: "extent a = length first"
    using assms by (simp add: init_store_def Let_def split: if_splits)
  show ?thesis
  proof (cases "calculate_weights_store (Some a) (length first) p h")
    case (Inl e)
    with assms n show ?thesis by (simp add: init_store_def ebind_def)
  next
    case (Inr r)
    obtain w h2 where r: "r = (w, h2)" by (cases r)
    have "h2 = h'"
      using assms n
      by (simp add: init_store_def Inr r ebind_def split: sum.splits)
    with Inr r n show ?thesis by simp
  qed
qed

lemma init_store_returns:
  assumes "calculate_weights_store (Some a) (length first) p h = Inr (w, h')"
      and "extent a = length first"
      and "transform_to_uniform ((name, first) # rest) ss = Inr t"
      and "product_distribution (length ss) t p ss = Inr comps"
  shows "init_store ((name, first) # rest) ss p (Some a) h
           = Inr (\<lparr>search_space_of = ss,
                   mixture_of = mixture_distribution comps (np_read h' w)\<rparr>, h')"
  by (simp add: init_store_def ebind_def assms)

text \<open>
  Claim C10. With predetermined weights in a valid array, no prior and at least one
  observation, \<^verbatim>\<open>_calculate_weights\<close> returns a window of the buffer of its caller and
  overwrites the first \<open>n\<close> entries of the caller's array with their normalised values.
  Where the prior is considered the result lies in a new buffer and every buffer of the
  caller is left as it was. So after a construction that returns, the caller's array of
  predetermined weights holds its normalised values when the prior is not considered, and
  its old values when it is.
\<close>

theorem calculate_weights_store_aliasing:
  "(valid_array h a \<and> \<not> consider_prior p \<and> 0 < n \<longrightarrow>
      (\<exists>h'. calculate_weights_store (Some a) n p h = Inr (slice_to a n, h')
         \<and> buffer (slice_to a n) = buffer a
         \<and> np_read h' (slice_to a n) = normalize (take n (np_read h a))
         \<and> np_read h' a = normalize (take n (np_read h a)) @ drop n (np_read h a)))
   \<and> (valid_array h a \<and> (consider_prior p \<or> n = 0)
        \<and> calculate_weights_store (Some a) n p h = Inr (w, h2)
      \<longrightarrow> buffer w = length h \<and> take (length h) h2 = h \<and> np_read h2 a = np_read h a)
   \<and> (valid_array h a \<and> init_store ((name, first) # rest) ss p (Some a) h = Inr (est, h3)
      \<longrightarrow> np_read h3 a
            = (if consider_prior p \<or> first = [] then np_read h a else normalize (np_read h a)))"
proof (intro conjI impI)
  assume a: "valid_array h a \<and> \<not> consider_prior p \<and> 0 < n"
  then have v: "valid_array h a" and cp: "\<not> consider_prior p" and n: "0 < n" by simp_all
  define h' where "h' = np_write h (slice_to a n) (normalize (take n (np_read h a)))"
  have len: "length (normalize (take n (np_read h a))) = min n (extent a)"
    using length_np_read [OF v] by (simp add: length_normalize min.commute)
  have "calculate_weights_store (Some a) n p h = Inr (slice_to a n, h')"
    unfolding h'_def by (rule calculate_weights_store_in_place [OF cp n])
  moreover have "buffer (slice_to a n) = buffer a" by (simp add: slice_to_def)
  moreover have "np_read h' (slice_to a n) = normalize (take n (np_read h a))"
    unfolding h'_def using len
    by (intro np_read_np_write valid_array_slice_to [OF v]) (simp add: slice_to_def)
  moreover have "np_read h' a = normalize (take n (np_read h a)) @ drop n (np_read h a)"
    unfolding h'_def by (rule np_read_after_slice_write [OF v len])
  ultimately show "\<exists>h'. calculate_weights_store (Some a) n p h = Inr (slice_to a n, h')
         \<and> buffer (slice_to a n) = buffer a
         \<and> np_read h' (slice_to a n) = normalize (take n (np_read h a))
         \<and> np_read h' a = normalize (take n (np_read h a)) @ drop n (np_read h a)"
    by blast
next
  assume b: "valid_array h a \<and> (consider_prior p \<or> n = 0)
        \<and> calculate_weights_store (Some a) n p h = Inr (w, h2)"
  then have v: "valid_array h a" and cp: "consider_prior p \<or> n = 0"
    and r: "calculate_weights_store (Some a) n p h = Inr (w, h2)" by simp_all
  from calculate_weights_store_fresh [OF cp r]
  show "buffer w = length h" and t: "take (length h) h2 = h" by simp_all
  show "np_read h2 a = np_read h a" by (rule np_read_unchanged [OF v t])
next
  assume c: "valid_array h a \<and> init_store ((name, first) # rest) ss p (Some a) h = Inr (est, h3)"
  then have v: "valid_array h a" by simp
  from c have i: "init_store ((name, first) # rest) ss p (Some a) h = Inr (est, h3)" by simp
  from init_store_weights [OF i]
  obtain w where n: "length first = extent a"
    and r: "calculate_weights_store (Some a) (length first) p h = Inr (w, h3)"
    by blast
  show "np_read h3 a
            = (if consider_prior p \<or> first = [] then np_read h a else normalize (np_read h a))"
  proof (cases "consider_prior p \<or> first = []")
    case True
    then have cp: "consider_prior p \<or> length first = 0" by simp
    from calculate_weights_store_fresh [OF cp r] have "take (length h) h3 = h" by simp
    from np_read_unchanged [OF v this] True show ?thesis by simp
  next
    case False
    then have cp: "\<not> consider_prior p" and pos: "0 < length first" by simp_all
    have len: "length (normalize (take (length first) (np_read h a)))
                 = min (length first) (extent a)"
      using length_np_read [OF v] by (simp add: length_normalize min.commute)
    from r calculate_weights_store_in_place [OF cp pos, of a h]
    have "h3 = np_write h (slice_to a (length first))
                 (normalize (take (length first) (np_read h a)))"
      by auto
    then have "np_read h3 a = normalize (take (length first) (np_read h a))
                               @ drop (length first) (np_read h a)"
      using np_read_after_slice_write [OF v len] by simp
    then show ?thesis using False n length_np_read [OF v] by simp
  qed
qed


text \<open>The theorem at the predetermined weights \<open>[2, 2]\<close>: without prior the caller's
  array becomes \<open>[1/2, 1/2]\<close>, with a prior weight of one it stays \<open>[2, 2]\<close>.\<close>

theorem calculate_weights_store_aliasing_witness:
  "valid_array [[Fin 2, Fin 2]] caller_array
   \<and> \<not> consider_prior no_prior_parameters \<and> (0::nat) < 2
   \<and> (\<exists>h'. calculate_weights_store (Some caller_array) 2 no_prior_parameters [[Fin 2, Fin 2]]
              = Inr (slice_to caller_array 2, h')
          \<and> np_read h' caller_array = [Fin (1 / 2), Fin (1 / 2)])
   \<and> consider_prior uniform_parameters
   \<and> calculate_weights_store (Some caller_array) 2 uniform_parameters [[Fin 2, Fin 2]]
       = Inr (\<lparr>buffer = 1, start = 0, extent = 3\<rparr>,
              [[Fin 2, Fin 2], [Fin (2 / 5), Fin (2 / 5), Fin (1 / 5)]])
   \<and> np_read [[Fin 2, Fin 2], [Fin (2 / 5), Fin (2 / 5), Fin (1 / 5)]] caller_array
       = [Fin 2, Fin 2]
   \<and> (\<exists>est h3. init_store [(''x'', [Fin (1 / 2), Fin (1 / 4)])] float_search_space
                    no_prior_parameters (Some caller_array) [[Fin 2, Fin 2]] = Inr (est, h3)
          \<and> np_read h3 caller_array = [Fin (1 / 2), Fin (1 / 2)])"
proof -
  have h1: "valid_array [[Fin 2, Fin 2]] caller_array"
    by (simp add: valid_array_def caller_array_def)
  have h2: "\<not> consider_prior no_prior_parameters" by (simp add: no_prior_parameters_def)
  have h3: "consider_prior uniform_parameters" by (simp add: uniform_parameters_def)
  have h4: "calculate_weights_store (Some caller_array) 2 uniform_parameters [[Fin 2, Fin 2]]
       = Inr (\<lparr>buffer = 1, start = 0, extent = 3\<rparr>,
              [[Fin 2, Fin 2], [Fin (2 / 5), Fin (2 / 5), Fin (1 / 5)]])"
    by (simp add: calculate_weights_store_def uniform_parameters_def caller_array_def ebind_def
          slice_to_def np_write_def np_read_def normalize_def np_sum_def np_alloc_def
          assign_slice_def float_of_optional_def)
  have h5: "np_read [[Fin 2, Fin 2]] caller_array = [Fin 2, Fin 2]"
    by (simp add: np_read_def caller_array_def)
  have h6: "normalize [Fin 2, Fin 2] = [Fin (1 / 2), Fin (1 / 2)]"
    by (simp add: normalize_def np_sum_def)
  note t = calculate_weights_store_aliasing
    [where h = "[[Fin 2, Fin 2]]" and a = caller_array and n = 2
       and name = "''x''" and first = "[Fin (1 / 2), Fin (1 / 4)]" and rest = "[]"
       and ss = float_search_space]
  have c1: "\<exists>h'. calculate_weights_store (Some caller_array) 2 no_prior_parameters [[Fin 2, Fin 2]]
              = Inr (slice_to caller_array 2, h')
          \<and> np_read h' caller_array = [Fin (1 / 2), Fin (1 / 2)]"
    using t [where p = no_prior_parameters, THEN conjunct1] h1 h2 by (auto simp: h5 h6)
  have c2: "np_read [[Fin 2, Fin 2], [Fin (2 / 5), Fin (2 / 5), Fin (1 / 5)]] caller_array
       = [Fin 2, Fin 2]"
    using t [where p = uniform_parameters, THEN conjunct2, THEN conjunct1] h1 h3 h4
    by (simp add: h5)
  obtain w h' where cw: "calculate_weights_store (Some caller_array) 2 no_prior_parameters
                           [[Fin 2, Fin 2]] = Inr (w, h')"
    using c1 by blast
  have tr: "transform_to_uniform [(''x'', [Fin (1 / 2), Fin (1 / 4)])] float_search_space
              = Inr [(''x'', [Fin (1 / 2), Fin (1 / 4)])]"
    by (simp add: transform_to_uniform_def float_search_space_def ebind_def rec_fromarrays_def)
  have l: "length [Fin (1 / 2), Fin (1 / 4)] = (2::nat)" by simp
  have cw': "calculate_weights_store (Some caller_array) (length [Fin (1 / 2), Fin (1 / 4)])
               no_prior_parameters [[Fin 2, Fin 2]] = Inr (w, h')"
    unfolding l by (rule cw)
  have e: "extent caller_array = length [Fin (1 / 2), Fin (1 / 4)]"
    by (simp add: caller_array_def)
  obtain comps where pd: "product_distribution (length float_search_space)
            [(''x'', [Fin (1 / 2), Fin (1 / 4)])] no_prior_parameters float_search_space
              = Inr comps"
    by (simp add: float_search_space_def ebind_def field_def calculate_distributions_def
          working_bounds_def)
  note i = init_store_returns [OF cw' e tr pd]
  have "np_read h' caller_array = [Fin (1 / 2), Fin (1 / 2)]"
    using t [where p = no_prior_parameters and ?h3.0 = h', THEN conjunct2, THEN conjunct2]
      h1 h2 i
    by (simp add: h5 h6)
  with i have c3: "\<exists>est h3. init_store [(''x'', [Fin (1 / 2), Fin (1 / 4)])] float_search_space
                    no_prior_parameters (Some caller_array) [[Fin 2, Fin 2]] = Inr (est, h3)
          \<and> np_read h3 caller_array = [Fin (1 / 2), Fin (1 / 2)]"
    by blast
  show ?thesis using h1 h2 h3 h4 c1 c2 c3 by simp
qed


end
